theory Spec2Isabelle
  imports Main "HOL-Library.Word" "HOL-Library.Sublist" "HOL-Library.AList"
begin

unbundle bit_operations_syntax

section \<open>Text formatting primitives\<close>

text \<open>
  Go strings are byte sequences; they are modelled as \<open>string\<close> (a list of 8-bit
  characters). \<open>fmt.Sprintf("%d", n)\<close> of a non-negative integer is \<open>dec n\<close>;
  a zero-padded field \<open>%0wd\<close> is \<open>pad0 w (dec n)\<close>.
\<close>

definition digit_char :: "nat \<Rightarrow> char" where
  "digit_char d = ''0123456789abcdef'' ! d"

function dec :: "nat \<Rightarrow> string" where
  "dec n = (if n < 10 then [digit_char n] else dec (n div 10) @ [digit_char (n mod 10)])"
  by pat_completeness auto
termination
  by (relation "measure (\<lambda>n. n)") auto

declare dec.simps [simp del]

definition pad0 :: "nat \<Rightarrow> string \<Rightarrow> string" where
  "pad0 w s = replicate (w - length s) CHR ''0'' @ s"

text \<open>\<open>strings.TrimRight(s, "0")\<close>: drop the trailing run of \<open>0\<close> characters.\<close>

definition TrimRight0 :: "string \<Rightarrow> string" where
  "TrimRight0 s = rev (dropWhile (\<lambda>c. c = CHR ''0'') (rev s))"

section \<open>Scaled 64-bit integers: \<open>ScaleFmt\<close>\<close>

text \<open>
  \<open>exp10\<close> is the table filled by \<open>init\<close>: twenty unsigned 64-bit values, each ten
  times the previous one (with the wrap-around of \<open>uint64\<close> multiplication).
\<close>

definition exp10 :: "64 word list" where
  "exp10 = map (\<lambda>i. 10 ^ i) [0..<20]"

text \<open>
  The grouping loop of \<open>ScaleFmt\<close>:
  \<^verbatim>\<open>for tmag := mag / unit; ; tmag /= 1000 {
    if out != "" { out = "," + out }
    if tmag < 1000 { out = fmt.Sprintf("%d", tmag) + out; break }
    out = fmt.Sprintf("%03d", tmag%1000) + out
  }\<close>
\<close>

function group_loop :: "64 word \<Rightarrow> string \<Rightarrow> string" where
  "group_loop tmag out =
     (let out1 = (if out \<noteq> [] then '','' @ out else out) in
      if tmag < 1000 then dec (unat tmag) @ out1
      else group_loop (tmag div 1000) (pad0 3 (dec (unat (tmag mod 1000))) @ out1))"
  by pat_completeness auto
termination
proof (relation "measure (\<lambda>(tmag, out). unat tmag)")
  show "wf (measure (\<lambda>(tmag, out). unat tmag))" by simp
next
  fix tmag :: "64 word" and out out1 :: string
  assume "\<not> tmag < 1000"
  then have "1000 \<le> unat tmag" by (simp add: word_less_nat_alt)
  then have "unat tmag div 1000 < unat tmag" by simp
  then show "((tmag div 1000, pad0 3 (dec (unat (tmag mod 1000))) @ out1), (tmag, out))
               \<in> measure (\<lambda>(tmag, out). unat tmag)"
    by (simp add: unat_div)
qed

declare group_loop.simps [simp del]

text \<open>
  \<open>ScaleFmt val exp\<close>. The value is an \<open>int64\<close> (a 64-bit word read as signed), the
  exponent a Go \<open>int\<close>. Indexing \<open>exp10[exp]\<close> outside \<open>0..19\<close> panics: the result
  is \<open>None\<close> then.
\<close>

definition ScaleFmt :: "64 word \<Rightarrow> int \<Rightarrow> string option" where
  "ScaleFmt val exp =
     (if exp < 0 \<or> 20 \<le> exp then None
      else
        let mag0 = (if val <s 0 then - val else val);
            unit = exp10 ! nat exp;
            out0 = group_loop (mag0 div unit) [];
            out1 = (if val <s 0 then ''-'' @ out0 else out0);
            mag = mag0 mod unit;
            out2 = (if 0 < mag
                    then out1 @ TrimRight0 (''.'' @ pad0 (nat exp) (dec (unat mag)))
                    else out1)
        in Some (out2 @ ''e'' @ dec (nat exp)))"

text \<open>
  The renderer as the specification words it: integer part \<open>|value| div 10^exponent\<close>
  grouped in threes, fractional part \<open>|value| mod 10^exponent\<close> padded to \<open>exponent\<close>
  digits with trailing zeros stripped, sign in front, suffix \<open>e\<close> and the exponent.
\<close>

function commas :: "string \<Rightarrow> string" where
  "commas ds = (if length ds \<le> 3 then ds
                else commas (take (length ds - 3) ds) @ '','' @ drop (length ds - 3) ds)"
  by pat_completeness auto
termination
  by (relation "measure length") auto

declare commas.simps [simp del]

definition renderScaled :: "int \<Rightarrow> nat \<Rightarrow> string" where
  "renderScaled v e =
     (let ip = nat \<bar>v\<bar> div 10 ^ e;
          fp = nat \<bar>v\<bar> mod 10 ^ e
      in (if v < 0 then ''-'' else '''') @ commas (dec ip)
         @ (if fp \<noteq> 0 then ''.'' @ TrimRight0 (pad0 e (dec fp)) else '''')
         @ ''e'' @ dec e)"

section \<open>Bytes, hexadecimal text and scanning primitives\<close>

type_synonym byte = "8 word"

text \<open>\<open>fmt.Sprintf("%x", bs)\<close>: two lowercase hexadecimal digits for each byte.\<close>

definition hex_byte :: "byte \<Rightarrow> string" where
  "hex_byte b = [digit_char (unat b div 16), digit_char (unat b mod 16)]"

definition hex_string :: "byte list \<Rightarrow> string" where
  "hex_string bs = concat (map hex_byte bs)"

text \<open>
  \<open>PrintVecOpaque\<close>: an empty vector is shown as \<open>0 bytes\<close>, every other one as its
  hexadecimal digits.
\<close>

definition PrintVecOpaque :: "byte list \<Rightarrow> string" where
  "PrintVecOpaque bs = (if length bs = 0 then ''0 bytes'' else hex_string bs)"

text \<open>
  White space as \<open>fmt\<close> sees it in a byte string: tab, newline, vertical tab, form
  feed, carriage return and blank.
\<close>

definition isSpace :: "char \<Rightarrow> bool" where
  "isSpace c = (c \<in> set [CHR 0x09, CHR 0x0A, CHR 0x0B, CHR 0x0C, CHR 0x0D, CHR '' ''])"

text \<open>
  The token a \<open>%s\<close> or \<open>%v\<close> verb reads: leading white space is skipped, then
  everything up to the next white space is taken. \<open>fmt.Sscanf(s, "%s", &w)\<close> stores
  the token in \<open>w\<close>, or fails and leaves \<open>w\<close> alone when there is none.
\<close>

definition first_word :: "string \<Rightarrow> string" where
  "first_word s = takeWhile (\<lambda>c. \<not> isSpace c) (dropWhile isSpace s)"

definition Sscanf_s :: "string \<Rightarrow> string option" where
  "Sscanf_s s = (if first_word s = [] then None else Some (first_word s))"

definition hex_val :: "char \<Rightarrow> nat option" where
  "hex_val c = map_of
     [(CHR ''0'', 0), (CHR ''1'', 1), (CHR ''2'', 2), (CHR ''3'', 3), (CHR ''4'', 4),
      (CHR ''5'', 5), (CHR ''6'', 6), (CHR ''7'', 7), (CHR ''8'', 8), (CHR ''9'', 9),
      (CHR ''a'', 10), (CHR ''b'', 11), (CHR ''c'', 12), (CHR ''d'', 13), (CHR ''e'', 14),
      (CHR ''f'', 15), (CHR ''A'', 10), (CHR ''B'', 11), (CHR ''C'', 12), (CHR ''D'', 13),
      (CHR ''E'', 14), (CHR ''F'', 15)] c"

fun hex_decode :: "string \<Rightarrow> byte list option" where
  "hex_decode [] = Some []"
| "hex_decode [c] = None"
| "hex_decode (c1 # c2 # cs) =
     (case hex_val c1 of None \<Rightarrow> None
      | Some h \<Rightarrow> (case hex_val c2 of None \<Rightarrow> None
         | Some l \<Rightarrow> (case hex_decode cs of None \<Rightarrow> None
            | Some bs \<Rightarrow> Some (of_nat (16 * h + l) # bs))))"

text \<open>
  Modelled from the spec: the \<open>Scan\<close> methods of the opaque types belong to the XDR
  runtime library, which is not part of the sources. The specification describes them
  as the inverse of the hexadecimal rendering (\<open>scanOpaque\<close>: hex-decode), with the
  declared maximum enforced. \<open>Scan_VecOpaque bound s\<close> reads a variable-length opaque
  of at most \<open>bound\<close> bytes, \<open>Scan_ArrayOpaque n s\<close> a fixed one of exactly \<open>n\<close>
  bytes; \<open>Inl\<close> carries the text of the error.
\<close>

definition Scan_VecOpaque :: "nat \<Rightarrow> string \<Rightarrow> string + byte list" where
  "Scan_VecOpaque bound s =
     (if first_word s = [] then Inl ''unexpected EOF''
      else case hex_decode (first_word s) of
             None \<Rightarrow> Inl ''invalid hexadecimal string''
           | Some bs \<Rightarrow> if length bs \<le> bound then Inr bs else Inl ''opaque too long'')"

definition Scan_ArrayOpaque :: "nat \<Rightarrow> string \<Rightarrow> string + byte list" where
  "Scan_ArrayOpaque n s =
     (if first_word s = [] then Inl ''unexpected EOF''
      else case hex_decode (first_word s) of
             None \<Rightarrow> Inl ''invalid hexadecimal string''
           | Some bs \<Rightarrow> if length bs = n then Inr bs else Inl ''wrong length for opaque array'')"

text \<open>
  \<open>fmt.Sscan(s, &size)\<close> for \<open>var size uint32\<close>, on decimal input (the form the
  encoder writes): white space is skipped, the digits are read, and a number that does
  not fit in 32 bits is an error, as is the absence of digits. The prefixed forms that
  \<open>fmt\<close> also accepts for the \<open>%v\<close> verb (\<open>0x\<close>, \<open>0b\<close>, \<open>0o\<close>, underscores) are
  not modelled. \<open>None\<close> is an error, in which case \<open>size\<close> is left untouched.
\<close>

definition isDigit :: "char \<Rightarrow> bool" where
  "isDigit c = (c \<in> set ''0123456789'')"

definition undec :: "string \<Rightarrow> nat" where
  "undec ds = foldl (\<lambda>a c. 10 * a + (case hex_val c of None \<Rightarrow> 0 | Some d \<Rightarrow> d)) 0 ds"

definition Sscan_uint32 :: "string \<Rightarrow> nat option" where
  "Sscan_uint32 s =
     (let ds = takeWhile isDigit (dropWhile isSpace s)
      in if ds = [] then None
         else if undec ds < 2 ^ 32 then Some (undec ds) else None)"

section \<open>Asset codes: \<open>scanCode\<close>\<close>

text \<open>
  \<open>scanCode\<close> reads its input through a \<open>strings.Reader\<close>, rune by rune. The input
  is given here as the sequence of runes that \<open>ReadRune\<close> delivers; a rune is its code
  point, and \<open>byte(r)\<close> keeps the low eight bits.
\<close>

type_synonym rune = nat

datatype go_error =
    io_EOF
  | io_ErrUnexpectedEOF
  | fmt_error string
  | StrKeyError string

text \<open>\<open>unicode.IsSpace\<close>.\<close>

definition IsSpace :: "rune \<Rightarrow> bool" where
  "IsSpace r = ((9 \<le> r \<and> r \<le> 13) \<or> r = 32 \<or> r = 0x85 \<or> r = 0xA0 \<or> r = 0x1680
                \<or> (0x2000 \<le> r \<and> r \<le> 0x200A) \<or> r = 0x2028 \<or> r = 0x2029
                \<or> r = 0x202F \<or> r = 0x205F \<or> r = 0x3000)"

definition hex_val_rune :: "rune \<Rightarrow> nat option" where
  "hex_val_rune r =
     (if 48 \<le> r \<and> r \<le> 57 then Some (r - 48)
      else if 97 \<le> r \<and> r \<le> 102 then Some (r - 87)
      else if 65 \<le> r \<and> r \<le> 70 then Some (r - 55)
      else None)"

text \<open>
  \<open>fmt.Fscanf(ss, "%02x", &out[i])\<close> on the rest of the reader: white space is skipped
  (a newline there is an error), then one or two hexadecimal digits are read; the end
  of the input or another character is an error. The result is the byte and the
  unread rest.
\<close>

definition Fscanf_02x :: "rune list \<Rightarrow> go_error + (byte \<times> rune list)" where
  "Fscanf_02x rs =
     (case dropWhile (\<lambda>r. IsSpace r \<and> r \<noteq> 10) rs of
        [] \<Rightarrow> Inl io_ErrUnexpectedEOF
      | r # rs2 \<Rightarrow>
          if r = 10 then Inl (fmt_error ''unexpected newline'')
          else (case hex_val_rune r of
                  None \<Rightarrow> Inl (fmt_error ''expected integer'')
                | Some h \<Rightarrow>
                    (case rs2 of
                       [] \<Rightarrow> Inr (of_nat h, [])
                     | r' # rs3 \<Rightarrow>
                         (case hex_val_rune r' of
                            None \<Rightarrow> Inr (of_nat h, rs2)
                          | Some l \<Rightarrow> Inr (of_nat (16 * h + l), rs3)))))"

text \<open>
  The main loop of \<open>scanCode\<close>, from index \<open>i\<close>. It ends in one of two ways: an early
  \<open>return err\<close> (\<open>Inl\<close>, with the buffer as written so far), or by leaving the loop
  (\<open>Inr\<close>) with the index, the buffer, the unread runes and the local variable
  \<open>err\<close>, which the branch for an invalid character sets before its \<open>break\<close>.
\<close>

function scanCode_loop ::
  "nat \<Rightarrow> byte list \<Rightarrow> rune list \<Rightarrow>
     (go_error \<times> byte list) + (nat \<times> byte list \<times> rune list \<times> go_error option)" where
  "scanCode_loop i out rs =
     (if \<not> i < length out then Inr (i, out, rs, None)
      else case rs of
        [] \<Rightarrow> Inr (i, out, [], Some io_EOF)
      | r # rs1 \<Rightarrow>
          if IsSpace r then Inr (i, out, rs1, None)
          else if r \<le> 32 \<or> 127 \<le> r
            then Inr (i, out, rs1, Some (StrKeyError ''Invalid character in AssetCode''))
          else if r \<noteq> 92 then scanCode_loop (i + 1) (out[i := of_nat r]) rs1
          else (case rs1 of
                  [] \<Rightarrow> Inl (io_EOF, out)
                | r2 # rs2 \<Rightarrow>
                    if r2 \<noteq> 120 then scanCode_loop (i + 1) (out[i := of_nat r2]) rs2
                    else (case Fscanf_02x rs2 of
                            Inl e \<Rightarrow> Inl (e, out)
                          | Inr (b, rs3) \<Rightarrow> scanCode_loop (i + 1) (out[i := b]) rs3)))"
  by pat_completeness auto
termination
  by (relation "measure (\<lambda>(i, out, rs). length out - i)") auto

declare scanCode_loop.simps [simp del]

text \<open>
  \<open>scanCode out input\<close>: the returned error (\<open>None\<close> for \<open>nil\<close>) and the buffer as the
  call leaves it. After the loop the rest of the buffer is zeroed, and one more rune is
  read into the same variables \<open>r\<close> and \<open>err\<close>: whatever the loop left in \<open>err\<close> is
  overwritten there.
\<close>

definition scanCode :: "byte list \<Rightarrow> rune list \<Rightarrow> go_error option \<times> byte list" where
  "scanCode out input =
     (case scanCode_loop 0 out (dropWhile IsSpace input) of
        Inl (e, out1) \<Rightarrow> (Some e, out1)
      | Inr (i, out1, rs, err) \<Rightarrow>
          let out2 = take i out1 @ replicate (length out1 - i) 0
          in (case rs of
                [] \<Rightarrow> (None, out2)
              | r # rs' \<Rightarrow>
                  if \<not> IsSpace r then (Some (StrKeyError ''AssetCode too long''), out2)
                  else (None, out2)))"

section \<open>The typed tree\<close>

text \<open>
  \<open>strings.HasPrefix\<close>, \<open>strings.HasSuffix\<close> and the built-in \<open>copy\<close>.
\<close>

definition HasPrefix :: "string \<Rightarrow> string \<Rightarrow> bool" where
  "HasPrefix s p = (take (length p) s = p)"

definition HasSuffix :: "string \<Rightarrow> string \<Rightarrow> bool" where
  "HasSuffix s suf = (length suf \<le> length s \<and> drop (length s - length suf) s = suf)"

definition copy :: "'b list \<Rightarrow> 'b list \<Rightarrow> 'b list" where
  "copy dst src = take (length dst) src @ drop (length src) dst"

text \<open>
  An account identifier: the public-key type and the key bytes
  (\<open>pk.Type\<close> and \<open>pk.Ed25519()\<close>).
\<close>

datatype AccountID = AccountID (acct_type: nat) (acct_key: "byte list")

definition PUBLIC_KEY_TYPE_ED25519 :: nat where
  "PUBLIC_KEY_TYPE_ED25519 = 0"

text \<open>
  The nodes a traversal is handed, by the case of the type switch that takes them.
  Scalars carry a value of the type parameter \<open>'a\<close>; how a scalar is printed and
  scanned is the business of its own \<open>String\<close> and \<open>Scan\<close> methods, which are not
  part of the sources and are passed to the traversals as functions (\<open>'a extern\<close>).
  \<^item> \<open>Scanner v\<close>: a scalar with \<open>String\<close> and \<open>Scan\<close> methods;
  \<^item> \<open>EnumNames v entries\<close>: an enum; \<open>entries\<close> are the pairs of \<open>XdrEnumNames()\<close>
    in the order in which the \<open>range\<close> statement of this traversal yields them;
  \<^item> \<open>Account a\<close>: an \<open>AccountID\<close>;
  \<^item> \<open>ArrayOpaque bs\<close>: a fixed-length opaque array;
  \<^item> \<open>VecOpaque bound bs\<close>: a variable-length opaque of at most \<open>bound\<close> bytes;
  \<^item> \<open>Ptr z p\<close>: an optional value, absent (\<open>None\<close>) or present; \<open>z\<close> is the zero
    value that \<open>SetPresent(true)\<close> allocates;
  \<^item> \<open>Vec bound z es\<close>: a variable-length array of at most \<open>bound\<close> elements, \<open>z\<close>
    the zero value of an element;
  \<^item> \<open>Struct fs\<close>: the named fields of a struct, in declaration order;
  \<^item> \<open>Plain v\<close>: any other scalar (the \<open>default\<close> case).
\<close>

datatype 'a node =
    Scanner 'a
  | EnumNames 'a "(int \<times> string) list"
  | Account AccountID
  | ArrayOpaque "byte list"
  | VecOpaque nat "byte list"
  | Ptr "'a node" "'a node option"
  | Vec nat "'a node" "'a node list"
  | Struct "(string \<times> 'a node) list"
  | Plain 'a

record 'a extern =
  ext_String :: "'a \<Rightarrow> string"
  ext_Scan :: "'a \<Rightarrow> string \<Rightarrow> string + 'a"
  acct_String :: "AccountID \<Rightarrow> string"
  acct_Scan :: "AccountID \<Rightarrow> string \<Rightarrow> string + AccountID"
  plain_String :: "'a \<Rightarrow> string"
  plain_Scan :: "'a \<Rightarrow> string \<Rightarrow> 'a"

text \<open>
  Modelled from the spec: the traversal methods of the aggregates (\<open>XdrRecurse\<close>,
  \<open>XdrMarshalN\<close>, \<open>XdrMarshalValue\<close>) are generated code that is not part of the
  sources. Following the specification's field-name builder, a struct hands each field
  to \<open>Marshal\<close> under \<open>childName\<close>, a sequence its element \<open>i\<close> under
  \<open>elemName\<close>, and an optional its inner node under its own name.
\<close>

definition childName :: "string \<Rightarrow> string \<Rightarrow> string" where
  "childName parent field = (if parent = [] then field else parent @ ''.'' @ field)"

definition elemName :: "string \<Rightarrow> nat \<Rightarrow> string" where
  "elemName name i = name @ ''['' @ dec i @ '']''"

text \<open>The pseudo-selectors, and \<open>trackTypes.present\<close> at pointer depth \<open>ptrDepth\<close>.\<close>

definition ps_len :: string where
  "ps_len = ''len''"

definition ps_present :: string where
  "ps_present = ''_present''"

definition present :: "nat \<Rightarrow> string" where
  "present ptrDepth = ''.'' @ concat (replicate (ptrDepth - 1) ''_inner'') @ ps_present"

section \<open>Generating Txrep\<close>

text \<open>
  The callbacks of \<open>txStringCtx\<close> that the node kinds above consult. The output
  written to \<open>out\<close> is the result of the traversal.
\<close>

record txStringCtx =
  accountIDNote :: "AccountID \<Rightarrow> string"
  getHelp :: "string \<Rightarrow> bool"

text \<open>
  The help list of an enum: the loop over \<open>XdrEnumNames()\<close> with its \<open>notfirst\<close> flag.
\<close>

primrec enum_list :: "bool \<Rightarrow> string list \<Rightarrow> string" where
  "enum_list notfirst [] = []"
| "enum_list notfirst (s # ss) = (if notfirst then '', '' @ s else s) @ enum_list True ss"

definition Marshal_enum :: "(string \<Rightarrow> bool) \<Rightarrow> string \<Rightarrow> string \<Rightarrow> (int \<times> string) list \<Rightarrow> string" where
  "Marshal_enum gethelp name symb entries =
     (if gethelp name
      then name @ '': '' @ symb @ '' ('' @ enum_list False (map snd entries) @ '')'' @ [CHR 0x0A]
      else name @ '': '' @ symb @ [CHR 0x0A])"

definition Marshal_AccountID :: "'a extern \<Rightarrow> txStringCtx \<Rightarrow> string \<Rightarrow> AccountID \<Rightarrow> string" where
  "Marshal_AccountID ext xp name v =
     (let ac = acct_String ext v; hint = accountIDNote xp v
      in if hint \<noteq> [] then name @ '': '' @ ac @ '' ('' @ hint @ '')'' @ [CHR 0x0A]
         else name @ '': '' @ ac @ [CHR 0x0A])"

text \<open>
  \<open>txStringCtx.Marshal\<close>. The second number is \<open>ptrDepth\<close> as \<open>track\<close> found it on
  entry. None of the node kinds above raises an \<open>XdrError\<close>, so the list of bad values
  stays empty and is left out.
\<close>

fun txStringCtx_Marshal :: "'a extern \<Rightarrow> txStringCtx \<Rightarrow> nat \<Rightarrow> string \<Rightarrow> 'a node \<Rightarrow> string"
  and tx_XdrRecurse :: "'a extern \<Rightarrow> txStringCtx \<Rightarrow> nat \<Rightarrow> string \<Rightarrow> (string \<times> 'a node) list \<Rightarrow> string"
  and tx_XdrMarshalN :: "'a extern \<Rightarrow> txStringCtx \<Rightarrow> nat \<Rightarrow> string \<Rightarrow> nat \<Rightarrow> 'a node list \<Rightarrow> string"
where
  "txStringCtx_Marshal ext xp d name (ArrayOpaque k) =
     (if length k = 32 \<and> HasSuffix name ''tx.sourceAccountEd25519''
      then Marshal_AccountID ext xp (take (length name - 20) name @ ''sourceAccount'')
             (AccountID PUBLIC_KEY_TYPE_ED25519 (copy (replicate 32 0) k))
      else name @ '': '' @ hex_string k @ [CHR 0x0A])"
| "txStringCtx_Marshal ext xp d name (Account v) = Marshal_AccountID ext xp name v"
| "txStringCtx_Marshal ext xp d name (EnumNames v entries) =
     Marshal_enum (getHelp xp) name (ext_String ext v) entries"
| "txStringCtx_Marshal ext xp d name (VecOpaque bound bs) =
     name @ '': '' @ PrintVecOpaque bs @ [CHR 0x0A]"
| "txStringCtx_Marshal ext xp d name (Scanner v) =
     name @ '': '' @ ext_String ext v @ [CHR 0x0A]"
| "txStringCtx_Marshal ext xp d name (Ptr z p) =
     name @ present (d + 1) @ '': '' @ (if p = None then ''false'' else ''true'') @ [CHR 0x0A]
     @ (case p of None \<Rightarrow> [] | Some v \<Rightarrow> txStringCtx_Marshal ext xp (d + 1) name v)"
| "txStringCtx_Marshal ext xp d name (Vec bound z es) =
     name @ (if name = [] then [] else ''.'') @ ps_len @ '': '' @ dec (length es) @ [CHR 0x0A]
     @ tx_XdrMarshalN ext xp d name 0 es"
| "txStringCtx_Marshal ext xp d name (Struct fs) = tx_XdrRecurse ext xp d name fs"
| "txStringCtx_Marshal ext xp d name (Plain v) =
     name @ '': '' @ plain_String ext v @ [CHR 0x0A]"
| "tx_XdrRecurse ext xp d name [] = []"
| "tx_XdrRecurse ext xp d name (f # fs) =
     txStringCtx_Marshal ext xp d (childName name (fst f)) (snd f)
     @ tx_XdrRecurse ext xp d name fs"
| "tx_XdrMarshalN ext xp d name i [] = []"
| "tx_XdrMarshalN ext xp d name i (e # es) =
     txStringCtx_Marshal ext xp d (elemName name i) e
     @ tx_XdrMarshalN ext xp d name (i + 1) es"

text \<open>\<open>XdrToTxrep\<close> with the callbacks found on the root value.\<close>

definition XdrToTxrep :: "'a extern \<Rightarrow> txStringCtx \<Rightarrow> string \<Rightarrow> 'a node \<Rightarrow> string" where
  "XdrToTxrep ext xp name t = txStringCtx_Marshal ext xp 0 name t"

section \<open>Parsing Txrep\<close>

text \<open>
  A line of the input as \<open>readKvs\<close> files it: its line number and the text after the
  first colon. The table \<open>kvs\<close> is a Go map from field names to such entries; it is
  kept as an association list with one entry for each key. The state of a scan is the
  table, the errors reported so far (\<open>TxrepError\<close>: line and message) and the names
  handed to \<open>setHelp\<close>, in call order.
\<close>

record lineval =
  line :: nat
  val :: string

record xdrScan =
  kvs :: "(string \<times> lineval) list"
  err :: "(nat \<times> string) list"
  helps :: "string list"

text \<open>Reading the map: an absent key yields the zero \<open>lineval\<close> and \<open>ok = false\<close>.\<close>

definition kvs_get :: "xdrScan \<Rightarrow> string \<Rightarrow> lineval" where
  "kvs_get xs k = (case map_of (kvs xs) k of None \<Rightarrow> \<lparr>line = 0, val = []\<rparr> | Some lv \<Rightarrow> lv)"

definition kvs_ok :: "xdrScan \<Rightarrow> string \<Rightarrow> bool" where
  "kvs_ok xs k = (map_of (kvs xs) k \<noteq> None)"

definition kvs_delete :: "string \<Rightarrow> xdrScan \<Rightarrow> xdrScan" where
  "kvs_delete k xs = xs\<lparr>kvs := AList.delete k (kvs xs)\<rparr>"

definition report :: "nat \<Rightarrow> string \<Rightarrow> xdrScan \<Rightarrow> xdrScan" where
  "report ln msg xs = xs\<lparr>err := err xs @ [(ln, msg)]\<rparr>"

definition setHelp :: "string \<Rightarrow> xdrScan \<Rightarrow> xdrScan" where
  "setHelp name xs = xs\<lparr>helps := helps xs @ [name]\<rparr>"

definition ends_with_question :: "string \<Rightarrow> bool" where
  "ends_with_question v = (0 < length v \<and> v ! (length v - 1) = CHR ''?'')"

subsection \<open>Reading the lines\<close>

text \<open>
  \<open>ReadTextLine\<close> on the unread input: the line up to the next newline without a
  final carriage return, whether the error is \<open>io.EOF\<close> (no newline followed), and
  the input left.
\<close>

definition ReadTextLine :: "string \<Rightarrow> string \<times> bool \<times> string" where
  "ReadTextLine inp =
     (let ln = takeWhile (\<lambda>c. c \<noteq> CHR 0x0A) inp;
          rest = dropWhile (\<lambda>c. c \<noteq> CHR 0x0A) inp;
          ln' = (if 0 < length ln \<and> ln ! (length ln - 1) = CHR 0x0D then butlast ln else ln)
      in (ln', rest = [], tl rest))"

text \<open>\<open>strings.SplitN(line, ":", 2)\<close>: \<open>None\<close> when the line has no colon.\<close>

definition SplitN2 :: "string \<Rightarrow> (string \<times> string) option" where
  "SplitN2 ln =
     (if CHR '':'' \<in> set ln
      then Some (takeWhile (\<lambda>c. c \<noteq> CHR '':'') ln, tl (dropWhile (\<lambda>c. c \<noteq> CHR '':'') ln))
      else None)"

lemma ReadTextLine_shorter:
  assumes "ReadTextLine inp = (bline, eof, rest)" and "\<not> (eof \<and> length bline = 0)"
  shows "length rest < length inp"
proof -
  let ?d = "dropWhile (\<lambda>c. c \<noteq> CHR 0x0A) inp"
  have r: "rest = tl ?d" and e: "eof = (?d = [])"
    using assms(1) by (auto simp: ReadTextLine_def Let_def)
  have ne: "inp \<noteq> []"
  proof
    assume "inp = []"
    with assms(1) have "eof \<and> bline = []" by (auto simp: ReadTextLine_def Let_def)
    with assms(2) show False by simp
  qed
  have "length ?d \<le> length inp" by (rule length_dropWhile_le)
  then have "length (tl ?d) \<le> length inp - 1" by simp
  with ne r show ?thesis by (cases inp) auto
qed

function readKvs_loop :: "string \<Rightarrow> nat \<Rightarrow> xdrScan \<Rightarrow> xdrScan" where
  "readKvs_loop inp lineno xs =
     (case ReadTextLine inp of
        (bline, eof, rest) \<Rightarrow>
          if eof \<and> length bline = 0 then xs
          else if bline = [] then readKvs_loop rest (lineno + 1) xs
          else (case SplitN2 bline of
                  None \<Rightarrow> readKvs_loop rest (lineno + 1) (report (lineno + 1) ''syntax error'' xs)
                | Some (k, v) \<Rightarrow>
                    readKvs_loop rest (lineno + 1)
                      (xs\<lparr>kvs := AList.update k \<lparr>line = lineno + 1, val = v\<rparr> (kvs xs)\<rparr>)))"
  by pat_completeness auto
termination
  by (relation "measure (\<lambda>(inp, lineno, xs). length inp)")
     (auto dest: ReadTextLine_shorter [OF sym])

declare readKvs_loop.simps [simp del]

definition readKvs :: "string \<Rightarrow> xdrScan \<Rightarrow> xdrScan" where
  "readKvs inp xs = readKvs_loop inp 0 (xs\<lparr>kvs := []\<rparr>)"

subsection \<open>The cases of \<open>xdrScan.Marshal\<close>\<close>

text \<open>
  The \<open>fmt.Scanner\<close> case, for a value \<open>v\<close> whose \<open>Scan\<close> method is \<open>scan\<close>: an
  absent key returns at once; a failed scan asks for help and reports the error at the
  line of the entry, leaving the value as it was; a value ending in a question mark
  asks for help; the entry is deleted.
\<close>

definition Marshal_Scanner ::
  "(string \<Rightarrow> string + 'v) \<Rightarrow> string \<Rightarrow> 'v \<Rightarrow> xdrScan \<Rightarrow> 'v \<times> xdrScan" where
  "Marshal_Scanner scan name v xs =
     (if \<not> kvs_ok xs name then (v, xs)
      else
        let lv = kvs_get xs name;
            r = (case scan (val lv) of
                   Inl msg \<Rightarrow> (v, report (line lv) msg (setHelp name xs))
                 | Inr w \<Rightarrow> (w, xs));
            xs2 = (if ends_with_question (val lv) then setHelp name (snd r) else snd r)
        in (fst r, kvs_delete name xs2))"

definition Marshal_ArrayOpaque :: "string \<Rightarrow> byte list \<Rightarrow> xdrScan \<Rightarrow> byte list \<times> xdrScan" where
  "Marshal_ArrayOpaque name k xs =
     (if \<not> kvs_ok xs name then (k, xs)
      else
        let lv = kvs_get xs name
        in (case Scan_ArrayOpaque (length k) (val lv) of
              Inl msg \<Rightarrow> (k, kvs_delete name (report (line lv) msg (setHelp name xs)))
            | Inr bs \<Rightarrow> (bs, kvs_delete name xs)))"

definition Marshal_VecOpaque ::
  "nat \<Rightarrow> string \<Rightarrow> byte list \<Rightarrow> xdrScan \<Rightarrow> byte list \<times> xdrScan" where
  "Marshal_VecOpaque bound name bs xs =
     (if \<not> kvs_ok xs name then (bs, xs)
      else
        let lv = kvs_get xs name
        in (case Scan_VecOpaque bound (val lv) of
              Inl msg \<Rightarrow>
                if Sscanf_s (val lv) = Some ''0'' then ([], kvs_delete name xs)
                else (bs, kvs_delete name (report (line lv) msg (setHelp name xs)))
            | Inr bs' \<Rightarrow>
                (bs', kvs_delete name
                        (if ends_with_question (val lv) then setHelp name xs else xs))))"

text \<open>
  The \<open>*xdr.XdrSize\<close> case. The size is read from the entry of \<open>name.len\<close> into a
  fresh variable that starts at zero; the result of \<open>fmt.Sscan\<close> is not looked at.
\<close>

record XdrSize =
  Size :: nat
  Bound :: nat

definition Marshal_XdrSize :: "string \<Rightarrow> XdrSize \<Rightarrow> xdrScan \<Rightarrow> XdrSize \<times> xdrScan" where
  "Marshal_XdrSize name v xs =
     (let lv = kvs_get xs (name @ ''.'' @ ps_len);
          size = (case Sscan_uint32 (val lv) of None \<Rightarrow> 0 | Some n \<Rightarrow> n)
      in if size \<le> Bound v then (v\<lparr>Size := size\<rparr>, kvs_delete name xs)
         else (v\<lparr>Size := Bound v\<rparr>,
               kvs_delete name
                 (report (line lv)
                    (name @ ''.'' @ ps_len @ '' ('' @ dec size @ '') exceeds maximum size ''
                       @ dec (Bound v) @ ''.'') xs)))"

text \<open>
  The \<open>xdr.XdrPtr\<close> case up to \<open>SetPresent\<close>: the presence that is set, and the state
  after a possible report. \<open>ptrDepth\<close> is the depth after \<open>track\<close> has counted this
  pointer.
\<close>

definition Marshal_Ptr_present :: "nat \<Rightarrow> string \<Rightarrow> xdrScan \<Rightarrow> bool \<times> xdrScan" where
  "Marshal_Ptr_present ptrDepth name xs =
     (let field = name @ present ptrDepth;
          vf = (case Sscanf_s (val (kvs_get xs field)) of
                  Some w \<Rightarrow> (w, field)
                | None \<Rightarrow>
                    if kvs_ok xs name then (''true'', field)
                    else (if list_ex (\<lambda>f. HasPrefix f (name @ ''.'')) (map fst (kvs xs))
                          then ''true'' else ''false'', name @ ''.''))
      in if fst vf = ''false'' then (False, xs)
         else if fst vf = ''true'' then (True, xs)
         else (True, report (line (kvs_get xs (snd vf)))
                       (snd vf @ '' ('' @ fst vf @ '') must be true or false'') xs))"

text \<open>
  \<open>xdrScan.Marshal\<close>. The number is \<open>ptrDepth\<close> as \<open>track\<close> found it on entry. The
  result is the node as the call leaves it and the new state.
\<close>

fun xdrScan_Marshal ::
    "'a extern \<Rightarrow> nat \<Rightarrow> string \<Rightarrow> 'a node \<Rightarrow> xdrScan \<Rightarrow> 'a node \<times> xdrScan"
  and scan_XdrRecurse ::
    "'a extern \<Rightarrow> nat \<Rightarrow> string \<Rightarrow> (string \<times> 'a node) list \<Rightarrow> xdrScan
       \<Rightarrow> (string \<times> 'a node) list \<times> xdrScan"
  and scan_XdrMarshalN ::
    "'a extern \<Rightarrow> nat \<Rightarrow> string \<Rightarrow> nat \<Rightarrow> nat \<Rightarrow> 'a node list \<Rightarrow> xdrScan
       \<Rightarrow> 'a node list \<times> xdrScan"
  and scan_XdrMarshalN_new ::
    "'a extern \<Rightarrow> nat \<Rightarrow> string \<Rightarrow> nat \<Rightarrow> nat \<Rightarrow> 'a node \<Rightarrow> xdrScan
       \<Rightarrow> 'a node list \<times> xdrScan"
where
  "xdrScan_Marshal ext d name (ArrayOpaque k) xs =
     (if length k = 32 \<and> HasSuffix name ''tx.sourceAccountEd25519''
      then
        let name' = take (length name - 20) name @ ''sourceAccount'';
            pk0 = AccountID PUBLIC_KEY_TYPE_ED25519 (replicate 32 0)
        in if \<not> kvs_ok xs name' then (ArrayOpaque k, xs)
           else (case Marshal_Scanner (acct_Scan ext pk0) name' pk0 xs of
                   (pk, xs1) \<Rightarrow>
                     if acct_type pk = PUBLIC_KEY_TYPE_ED25519
                     then (ArrayOpaque (copy k (acct_key pk)), xs1)
                     else (ArrayOpaque k,
                           report (line (kvs_get xs1 name'))
                             ''sourceAccount must be type Ed25519 for V0 transaction'' xs1))
      else (case Marshal_ArrayOpaque name k xs of (k', xs1) \<Rightarrow> (ArrayOpaque k', xs1)))"
| "xdrScan_Marshal ext d name (VecOpaque bound bs) xs =
     (case Marshal_VecOpaque bound name bs xs of (bs', xs1) \<Rightarrow> (VecOpaque bound bs', xs1))"
| "xdrScan_Marshal ext d name (Scanner v) xs =
     (case Marshal_Scanner (ext_Scan ext v) name v xs of (v', xs1) \<Rightarrow> (Scanner v', xs1))"
| "xdrScan_Marshal ext d name (EnumNames v entries) xs =
     (case Marshal_Scanner (ext_Scan ext v) name v xs of
        (v', xs1) \<Rightarrow> (EnumNames v' entries, xs1))"
| "xdrScan_Marshal ext d name (Account a) xs =
     (case Marshal_Scanner (acct_Scan ext a) name a xs of (a', xs1) \<Rightarrow> (Account a', xs1))"
| "xdrScan_Marshal ext d name (Ptr z p) xs =
     (case Marshal_Ptr_present (d + 1) name xs of
        (b, xs1) \<Rightarrow>
          if \<not> b then (Ptr z None, kvs_delete name xs1)
          else (case p of
                  None \<Rightarrow>
                    (case xdrScan_Marshal ext (d + 1) name z xs1 of
                       (c', xs2) \<Rightarrow> (Ptr z (Some c'), kvs_delete name xs2))
                | Some c \<Rightarrow>
                    (case xdrScan_Marshal ext (d + 1) name c xs1 of
                       (c', xs2) \<Rightarrow> (Ptr z (Some c'), kvs_delete name xs2))))"
| "xdrScan_Marshal ext d name (Vec bound z es) xs =
     (case Marshal_XdrSize name \<lparr>Size = length es, Bound = bound\<rparr> xs of
        (sz, xs1) \<Rightarrow>
          (case scan_XdrMarshalN ext d name 0 (Size sz) es xs1 of
             (es1, xs2) \<Rightarrow>
               (case scan_XdrMarshalN_new ext d name (length es) (Size sz - length es) z xs2 of
                  (es2, xs3) \<Rightarrow> (Vec bound z (es1 @ es2), kvs_delete name xs3))))"
| "xdrScan_Marshal ext d name (Struct fs) xs =
     (case scan_XdrRecurse ext d name fs xs of
        (fs', xs1) \<Rightarrow> (Struct fs', kvs_delete name xs1))"
| "xdrScan_Marshal ext d name (Plain v) xs =
     (if \<not> kvs_ok xs name then (Plain v, xs)
      else (Plain (plain_Scan ext v (val (kvs_get xs name))), kvs_delete name xs))"
| "scan_XdrRecurse ext d name [] xs = ([], xs)"
| "scan_XdrRecurse ext d name (f # fs) xs =
     (case xdrScan_Marshal ext d (childName name (fst f)) (snd f) xs of
        (n', xs1) \<Rightarrow>
          (case scan_XdrRecurse ext d name fs xs1 of
             (fs', xs2) \<Rightarrow> ((fst f, n') # fs', xs2)))"
| "scan_XdrMarshalN ext d name i n [] xs = ([], xs)"
| "scan_XdrMarshalN ext d name i n (e # es) xs =
     (if \<not> i < n then ([], xs)
      else (case xdrScan_Marshal ext d (elemName name i) e xs of
              (e', xs1) \<Rightarrow>
                (case scan_XdrMarshalN ext d name (i + 1) n es xs1 of
                   (es', xs2) \<Rightarrow> (e' # es', xs2))))"
| "scan_XdrMarshalN_new ext d name i 0 z xs = ([], xs)"
| "scan_XdrMarshalN_new ext d name i (Suc k) z xs =
     (case xdrScan_Marshal ext d (elemName name i) z xs of
        (e', xs1) \<Rightarrow>
          (case scan_XdrMarshalN_new ext d name (i + 1) k z xs1 of
             (es', xs2) \<Rightarrow> (e' # es', xs2)))"

text \<open>
  \<open>XdrFromTxrep\<close>: the lines are read into a fresh table, then the tree is traversed.
  The result is the tree as the call leaves it and the final state, whose \<open>err\<close> is the
  returned \<open>TxrepError\<close>.
\<close>

definition XdrFromTxrep :: "'a extern \<Rightarrow> string \<Rightarrow> string \<Rightarrow> 'a node \<Rightarrow> 'a node \<times> xdrScan" where
  "XdrFromTxrep ext inp name t =
     xdrScan_Marshal ext 0 name t (readKvs inp \<lparr>kvs = [], err = [], helps = []\<rparr>)"

section \<open>Notions used in the statements\<close>

text \<open>\<open>with_err es xs\<close>: the state \<open>xs\<close> with the errors \<open>es\<close> in front of its own.\<close>

definition with_err :: "(nat \<times> string) list \<Rightarrow> xdrScan \<Rightarrow> xdrScan" where
  "with_err es xs = xs\<lparr>err := es @ err xs\<rparr>"

text \<open>
  \<open>insert_err k e xs\<close>: the state \<open>xs\<close> with the error \<open>e\<close> put at position
  \<open>k\<close> of its list of errors.
\<close>

definition insert_err :: "nat \<Rightarrow> nat \<times> string \<Rightarrow> xdrScan \<Rightarrow> xdrScan" where
  "insert_err k e xs = xs\<lparr>err := take k (err xs) @ [e] @ drop k (err xs)\<rparr>"

text \<open>The number of newlines of a text: the number of complete lines.\<close>

definition count_nl :: "string \<Rightarrow> nat" where
  "count_nl s = length (filter (\<lambda>c. c = CHR 0x0A) s)"

text \<open>
  The help line of an enum as the specification words it: the symbols in ascending
  ordinal order, separated by a comma and a blank.
\<close>

fun join_comma :: "string list \<Rightarrow> string" where
  "join_comma [] = []"
| "join_comma [s] = s"
| "join_comma (s # t # ss) = s @ '', '' @ join_comma (t # ss)"

definition help_line_ascending :: "string \<Rightarrow> string \<Rightarrow> (int \<times> string) list \<Rightarrow> string" where
  "help_line_ascending name symb entries =
     name @ '': '' @ symb @ '' ('' @ join_comma (map snd (sort_key fst entries)) @ '')''
     @ [CHR 0x0A]"

text \<open>
  An instance of the external methods, for concrete examples: scalars are unsigned
  32-bit numbers written in decimal, and an account is written as the letter \<open>G\<close>
  followed by the hexadecimal digits of its 32 key bytes (a stand-in for the address
  form of an account, whose codec is not part of the sources).
\<close>

definition demo_extern :: "nat extern" where
  "demo_extern =
     \<lparr>ext_String = dec,
      ext_Scan = (\<lambda>v s. case Sscan_uint32 s of None \<Rightarrow> Inl ''expected integer'' | Some n \<Rightarrow> Inr n),
      acct_String = (\<lambda>a. CHR ''G'' # hex_string (acct_key a)),
      acct_Scan = (\<lambda>a s. case first_word s of
                     [] \<Rightarrow> Inl ''unexpected EOF''
                   | c # cs \<Rightarrow>
                       if c = CHR ''G'' then
                         (case Scan_ArrayOpaque 32 cs of
                            Inl m \<Rightarrow> Inl m
                          | Inr k \<Rightarrow> Inr (AccountID PUBLIC_KEY_TYPE_ED25519 k))
                       else Inl ''invalid account''),
      plain_String = dec,
      plain_Scan = (\<lambda>v s. case Sscan_uint32 s of None \<Rightarrow> v | Some n \<Rightarrow> n)\<rparr>"

definition no_notes :: txStringCtx where
  "no_notes = \<lparr>accountIDNote = (\<lambda>a. []), getHelp = (\<lambda>name. False)\<rparr>"

section \<open>Properties of \<open>ScaleFmt\<close>\<close>

lemma digit_char_0: "digit_char 0 = CHR ''0''"
  by (simp add: digit_char_def)

lemma dec_length_pos: "dec n \<noteq> []"
  by (subst dec.simps) simp

lemma pad3_digits:
  assumes "m < 1000"
  shows "pad0 3 (dec m) = [digit_char (m div 100), digit_char (m div 10 mod 10), digit_char (m mod 10)]"
proof -
  consider "m < 10" | "10 \<le> m" "m < 100" | "100 \<le> m" by linarith
  then show ?thesis
  proof cases
    case 1
    then show ?thesis by (simp add: dec.simps [of m] pad0_def digit_char_0 numeral_3_eq_3)
  next
    case 2
    then have "m div 10 < 10" by simp
    with 2 show ?thesis
      by (simp add: dec.simps [of m] dec.simps [of "m div 10"] pad0_def digit_char_0)
  next
    case 3
    then have a: "\<not> m div 10 < 10" by simp
    from assms have b: "m div 10 div 10 < 10" by simp
    have c: "m div 10 div 10 = m div 100" by (simp add: div_mult2_eq)
    from 3 a b show ?thesis
      by (simp add: dec.simps [of m] dec.simps [of "m div 10"] dec.simps [of "m div 10 div 10"]
          dec.simps [of "m div 100"] pad0_def c)
  qed
qed

lemma dec_split1000:
  assumes "1000 \<le> n"
  shows "dec n = dec (n div 1000) @ pad0 3 (dec (n mod 1000))"
proof -
  have a: "\<not> n < 10" "\<not> n div 10 < 10" "\<not> n div 10 div 10 < 10" using assms by simp_all
  have c: "n div 10 div 10 = n div 100" "n div 10 div 10 div 10 = n div 1000"
    "n div 100 div 10 = n div 1000" by (simp_all add: div_mult2_eq)
  have d1: "n mod 1000 div 100 = n div 100 mod 10"
    using mod_mult2_eq [of n 100 10] by simp
  have "n mod 1000 = 10 * (n div 10 mod 100) + n mod 10"
    using mod_mult2_eq [of n 10 100] by simp
  then have "n mod 1000 div 10 = n div 10 mod 100" by simp
  moreover have "n div 10 mod 100 mod 10 = n div 10 mod 10" by (simp add: mod_mod_cancel)
  ultimately have d2: "n mod 1000 div 10 mod 10 = n div 10 mod 10" by simp
  have d3: "n mod 1000 mod 10 = n mod 10" by (simp add: mod_mod_cancel)
  note d = d1 d2 d3
  show ?thesis
    using a by (simp add: dec.simps [of n] dec.simps [of "n div 10"] dec.simps [of "n div 10 div 10"]
        dec.simps [of "n div 100"] pad3_digits c d)
qed

lemma dec_short: "n < 1000 \<Longrightarrow> length (dec n) \<le> 3"
proof -
  assume "n < 1000"
  then have "length (pad0 3 (dec n)) = 3" by (simp add: pad3_digits)
  then show ?thesis by (simp add: pad0_def)
qed

lemma commas_dec:
  "commas (dec n) = (if n < 1000 then dec n else commas (dec (n div 1000)) @ '','' @ pad0 3 (dec (n mod 1000)))"
proof (cases "n < 1000")
  case True
  then show ?thesis using dec_short [of n] by (simp add: commas.simps [of "dec n"])
next
  case False
  then have s: "dec n = dec (n div 1000) @ pad0 3 (dec (n mod 1000))" by (simp add: dec_split1000)
  have l: "length (pad0 3 (dec (n mod 1000))) = 3" by (simp add: pad3_digits)
  have "length (dec n) > 3" using dec_length_pos [of "n div 1000"] by (simp add: s l) 
  then show ?thesis using False
    by (simp add: commas.simps [of "dec n"]) (simp add: s l)
qed

lemma group_loop_commas:
  "group_loop t out = commas (dec (unat t)) @ (if out \<noteq> [] then '','' @ out else out)"
proof (induction t out rule: group_loop.induct)
  case (1 tmag out)
  show ?case
  proof (cases "tmag < 1000")
    case True
    then have "unat tmag < 1000" by (simp add: word_less_nat_alt)
    with True show ?thesis
      by (simp add: group_loop.simps [of tmag out] commas_dec [of "unat tmag"])
  next
    case False
    then have f: "\<not> unat tmag < 1000" by (simp add: word_less_nat_alt)
    have ne: "pad0 3 (dec (unat (tmag mod 1000))) @ (if out \<noteq> [] then '','' @ out else out) \<noteq> []"
      by (simp add: pad0_def dec_length_pos)
    show ?thesis
      using False f "1.IH" [OF refl False] ne
      by (simp add: group_loop.simps [of tmag out] commas_dec [of "unat tmag"] unat_div unat_mod Let_def)
  qed
qed

lemma TrimRight0_dot: "TrimRight0 (CHR ''.'' # s) = CHR ''.'' # TrimRight0 s"
  by (simp add: TrimRight0_def dropWhile_append)

lemma exp10_nth: "e < 20 \<Longrightarrow> exp10 ! e = 10 ^ e"
  by (simp add: exp10_def)

lemma unat_pow10: "e < 20 \<Longrightarrow> unat ((10::64 word) ^ e) = 10 ^ e"
proof -
  assume e: "e < 20"
  have "(10::nat) ^ e \<le> 10 ^ 19" using e by (intro power_increasing) simp_all
  also have "\<dots> < 2 ^ 64" by simp
  finally have "(10::nat) ^ e < 2 ^ LENGTH(64)" by simp
  then have "unat (of_nat (10 ^ e) :: 64 word) = 10 ^ e" by (simp only: unat_of_nat mod_less)
  then show ?thesis by simp
qed

lemma sless_int64: "- (2 ^ 63) \<le> v \<Longrightarrow> v < 2 ^ 63 \<Longrightarrow> ((word_of_int v :: 64 word) <s 0) = (v < 0)"
  by (simp add: word_sless_alt sint_sbintrunc' signed_take_bit_int_eq_self)

lemma unat_wi: "0 \<le> k \<Longrightarrow> k < 2 ^ 64 \<Longrightarrow> unat (word_of_int k :: 64 word) = nat k"
proof -
  assume "0 \<le> k" "k < 2 ^ 64"
  then have "k mod 2 ^ LENGTH(64) = k" by simp
  then have "uint (word_of_int k :: 64 word) = k" by (simp only: uint_word_of_int)
  then show ?thesis by (simp only: unat_eq_nat_uint)
qed

lemma unat_mag: 
  assumes "- (2 ^ 63) \<le> v" "v < 2 ^ 63"
  shows "unat (if v < 0 then - (word_of_int v :: 64 word) else word_of_int v) = nat \<bar>v\<bar>"
proof (cases "v < 0")
  case True
  have a: "word_of_int (- v) = - (word_of_int v :: 64 word)" by simp
  have b: "unat (word_of_int (- v) :: 64 word) = nat (- v)"
    by (rule unat_wi) (use True assms in simp_all)
  have c: "nat \<bar>v\<bar> = nat (- v)" using True by simp
  from b show ?thesis by (simp only: a c True if_True)
next
  case False
  have "unat (word_of_int v :: 64 word) = nat v"
    using False assms by (simp add: unat_wi)
  with False show ?thesis by simp
qed

lemma ScaleFmt_refines:
  assumes "- (2 ^ 63) \<le> v" "v < 2 ^ 63" "e < 20"
  shows "ScaleFmt (word_of_int v) (int e) = Some (renderScaled v e)"
proof -
  let ?w = "word_of_int v :: 64 word"
  let ?m = "if v < 0 then - ?w else ?w"
  have s: "(?w <s 0) = (v < 0)" using assms by (simp add: sless_int64)
  have m: "unat ?m = nat \<bar>v\<bar>" by (rule unat_mag [OF assms(1,2)])
  have u: "unat ((10::64 word) ^ e) = 10 ^ e" using assms by (simp add: unat_pow10)
  have d: "unat (?m div 10 ^ e) = nat \<bar>v\<bar> div 10 ^ e" by (simp only: unat_div m u)
  have r: "unat (?m mod 10 ^ e) = nat \<bar>v\<bar> mod 10 ^ e" by (simp only: unat_mod m u)
  have p: "(0 < ?m mod 10 ^ e) = (nat \<bar>v\<bar> mod 10 ^ e \<noteq> 0)"
    by (simp only: word_less_nat_alt r) simp
  show ?thesis
  proof (cases "v < 0")
    case True
    with assms(3) show ?thesis
      using d r p
      by (simp add: ScaleFmt_def renderScaled_def Let_def s exp10_nth group_loop_commas TrimRight0_dot)
  next
    case False
    with assms(3) show ?thesis
      using d r p
      by (simp add: ScaleFmt_def renderScaled_def Let_def s exp10_nth group_loop_commas TrimRight0_dot)
  qed
qed

lemma renderScaled_examples:
  "renderScaled 123456789 7 = ''12.3456789e7''"
  "renderScaled 0 7 = ''0e7''"
  "renderScaled (- 5000000) 7 = ''-0.5e7''"
  by (simp_all add: renderScaled_def dec.simps digit_char_def commas.simps pad0_def TrimRight0_def)

text \<open>
  C6. For every \<open>int64\<close> value \<open>v\<close> and every exponent \<open>e\<close> in the range of the
  table (\<open>0..19\<close>), \<open>ScaleFmt\<close> returns what the specification's renderer describes:
  the magnitude split into \<open>|v| div 10^e\<close> and \<open>|v| mod 10^e\<close>, the integer part
  grouped with a comma every three digits, a nonzero fractional part zero-padded to
  \<open>e\<close> digits with its trailing zeros stripped, a leading sign for negative values and
  the suffix \<open>e\<close> followed by the exponent. In particular
  \<open>ScaleFmt(123456789,7) = "12.3456789e7"\<close>, \<open>ScaleFmt(0,7) = "0e7"\<close> and
  \<open>ScaleFmt(-5000000,7) = "-0.5e7"\<close>.
\<close>

theorem ScaleFmt_renders_scaled:
  "(- (2 ^ 63) \<le> v \<and> v < 2 ^ 63 \<and> e < 20 \<longrightarrow>
      ScaleFmt (word_of_int v) (int e) = Some (renderScaled v e))
   \<and> ScaleFmt 123456789 7 = Some ''12.3456789e7''
   \<and> ScaleFmt 0 7 = Some ''0e7''
   \<and> ScaleFmt (- 5000000) 7 = Some ''-0.5e7''"
proof -
  have a: "ScaleFmt 123456789 7 = Some ''12.3456789e7''"
    using ScaleFmt_refines [of 123456789 7] by (simp add: renderScaled_examples)
  have b: "ScaleFmt 0 7 = Some ''0e7''"
    using ScaleFmt_refines [of 0 7] by (simp add: renderScaled_examples)
  have c: "ScaleFmt (- 5000000) 7 = Some ''-0.5e7''"
    using ScaleFmt_refines [of "- 5000000" 7] by (simp add: renderScaled_examples)
  show ?thesis using a b c by (simp add: ScaleFmt_refines)
qed

theorem ScaleFmt_renders_scaled_witness:
  "- (2 ^ 63) \<le> (- 1234567890123 :: int) \<and> (- 1234567890123 :: int) < 2 ^ 63 \<and> (7::nat) < 20
   \<and> ScaleFmt (word_of_int (- 1234567890123)) (int 7) = Some ''-123,456.7890123e7''"
proof -
  have r: "renderScaled (- 1234567890123) 7 = ''-123,456.7890123e7''"
    by (simp add: renderScaled_def dec.simps digit_char_def commas.simps pad0_def TrimRight0_def)
  show ?thesis
    using ScaleFmt_renders_scaled [of "- 1234567890123" 7] by (simp add: r)
qed

section \<open>Properties of \<open>scanCode\<close>\<close>

lemma Fscanf_02x_no_StrKeyError: "Fscanf_02x rs \<noteq> Inl (StrKeyError m)"
  by (auto simp: Fscanf_02x_def split: list.splits if_splits option.splits)

lemma scanCode_loop_no_StrKeyError:
  "scanCode_loop i out rs \<noteq> Inl (StrKeyError m, out')"
proof (induction i out rs rule: scanCode_loop.induct)
  case (1 i out rs)
  show ?case
    using "1.IH" Fscanf_02x_no_StrKeyError [of _ m]
    by (subst scanCode_loop.simps) (auto split: list.splits sum.splits)
qed

text \<open>
  Whatever the buffer and the input, the error for an invalid character is never what
  \<open>scanCode\<close> returns: the loop stores it in \<open>err\<close> and breaks, and the read after
  the loop assigns \<open>err\<close> again.
\<close>

lemma scanCode_never_invalid_character:
  "fst (scanCode out input) \<noteq> Some (StrKeyError ''Invalid character in AssetCode'')"
  using scanCode_loop_no_StrKeyError
    [of 0 out "dropWhile IsSpace input" "''Invalid character in AssetCode''"]
  by (auto simp: scanCode_def Let_def split: sum.splits list.splits)

lemma scanCode_valid_code: "scanCode [0, 0, 0, 0] [85, 83, 68] = (None, [85, 83, 68, 0])"
  by (simp add: scanCode_def scanCode_loop.simps IsSpace_def)

lemma scanCode_invalid_then_more:
  "scanCode [65, 66, 67, 68] [1, 65] = (Some (StrKeyError ''AssetCode too long''), [0, 0, 0, 0])"
  by (simp add: scanCode_def scanCode_loop.simps IsSpace_def)

text \<open>
  C8. \<open>scanCode\<close> is to fail with an invalid-character error when it meets an
  unescaped byte outside \<open>[0x21,0x7e]\<close> before the buffer is full. On a four-byte
  buffer and the input consisting of the single control character \<open>0x01\<close> the code
  does not: it returns \<open>nil\<close> and leaves the buffer zeroed.
\<close>

theorem scanCode_invalid_character_lost:
  "scanCode [65, 66, 67, 68] [1] = (None, [0, 0, 0, 0])"
  by (simp add: scanCode_def scanCode_loop.simps IsSpace_def)

section \<open>Opaque byte sequences\<close>

lemma nibble_cases: "d < 16 \<Longrightarrow> (d::nat) \<in> {0,1,2,3,4,5,6,7,8,9,10,11,12,13,14,15}"
  by simp arith

lemma hex_val_digit: "d < 16 \<Longrightarrow> hex_val (digit_char d) = Some d"
proof -
  assume "d < 16"
  then have "d \<in> {0,1,2,3,4,5,6,7,8,9,10,11,12,13,14,15}"
    by (rule nibble_cases)
  then show ?thesis by (auto simp: hex_val_def digit_char_def)
qed

lemma not_space_digit: "d < 16 \<Longrightarrow> \<not> isSpace (digit_char d)"
proof -
  assume "d < 16"
  then have "d \<in> {0,1,2,3,4,5,6,7,8,9,10,11,12,13,14,15}"
    by (rule nibble_cases)
  then show ?thesis by (auto simp: isSpace_def digit_char_def)
qed

lemma not_question_digit: "d < 16 \<Longrightarrow> digit_char d \<noteq> CHR ''?''"
proof -
  assume "d < 16"
  then have "d \<in> {0,1,2,3,4,5,6,7,8,9,10,11,12,13,14,15}"
    by (rule nibble_cases)
  then show ?thesis by (auto simp: digit_char_def)
qed

lemma byte_nibbles: "unat (b :: byte) div 16 < 16" "unat b mod 16 < 16"
proof -
  have "unat b < 2 ^ LENGTH(8)" by (rule unsigned_less)
  then show "unat b div 16 < 16" by simp
  show "unat b mod 16 < 16" by simp
qed

lemma byte_rebuild: "(of_nat (16 * (unat b div 16) + unat b mod 16) :: byte) = b"
  by simp

lemma hex_decode_hex_string: "hex_decode (hex_string bs) = Some bs"
  by (induction bs) (simp_all add: hex_string_def hex_byte_def hex_val_digit byte_nibbles)

lemma hex_string_no_space: "c \<in> set (hex_string bs) \<Longrightarrow> \<not> isSpace c"
  by (induction bs) (auto simp: hex_string_def hex_byte_def not_space_digit byte_nibbles)

lemma hex_string_nonempty: "bs \<noteq> [] \<Longrightarrow> hex_string bs \<noteq> []"
  by (cases bs) (simp_all add: hex_string_def hex_byte_def)

lemma first_word_hex: "first_word (CHR '' '' # hex_string bs) = hex_string bs"
proof -
  have "takeWhile (\<lambda>c. \<not> isSpace c) (hex_string bs) = hex_string bs"
    by (rule takeWhile_eq_all_conv [THEN iffD2]) (simp add: hex_string_no_space)
  moreover have "dropWhile isSpace (hex_string bs) = hex_string bs"
    by (cases "hex_string bs") (use hex_string_no_space [of _ bs] in auto)
  ultimately show ?thesis by (simp add: first_word_def isSpace_def)
qed

lemma hex_string_last: "bs \<noteq> [] \<Longrightarrow> last (hex_string bs) \<noteq> CHR ''?''"
proof (induction bs rule: rev_induct)
  case Nil then show ?case by simp
next
  case (snoc b bs)
  show ?case by (simp add: hex_string_def hex_byte_def not_question_digit byte_nibbles)
qed

lemma no_question_hex: "bs \<noteq> [] \<Longrightarrow> \<not> ends_with_question (CHR '' '' # hex_string bs)"
proof -
  assume a: "bs \<noteq> []"
  then have n: "hex_string bs \<noteq> []" by (rule hex_string_nonempty)
  then have "(CHR '' '' # hex_string bs) ! (length (CHR '' '' # hex_string bs) - 1) = last (hex_string bs)"
    by (simp add: last_conv_nth)
  with hex_string_last [OF a] show ?thesis by (simp add: ends_with_question_def)
qed

lemma Marshal_VecOpaque_roundtrip:
  assumes "bs \<noteq> []" "length bs \<le> bound"
    and "map_of (kvs xs) name = Some \<lparr>line = ln, val = CHR '' '' # PrintVecOpaque bs\<rparr>"
  shows "Marshal_VecOpaque bound name old xs = (bs, kvs_delete name xs)"
  using assms hex_string_nonempty [of bs] no_question_hex [of bs]
  by (simp add: Marshal_VecOpaque_def kvs_ok_def kvs_get_def Scan_VecOpaque_def PrintVecOpaque_def
      first_word_hex hex_decode_hex_string)

lemma Marshal_VecOpaque_zero:
  assumes "Sscanf_s v = Some ''0''"
    and "map_of (kvs xs) name = Some \<lparr>line = ln, val = v\<rparr>"
  shows "Marshal_VecOpaque bound name old xs = ([], kvs_delete name xs)"
proof -
  from assms(1) have "first_word v = ''0''" by (simp add: Sscanf_s_def split: if_splits)
  then have "\<exists>m. Scan_VecOpaque bound v = Inl m" by (simp add: Scan_VecOpaque_def)
  then show ?thesis using assms
    by (auto simp: Marshal_VecOpaque_def kvs_ok_def kvs_get_def)
qed

lemma PrintVecOpaque_deadbeef: "PrintVecOpaque [0xde, 0xad, 0xbe, 0xef] = ''deadbeef''"
  by (simp add: PrintVecOpaque_def hex_string_def hex_byte_def digit_char_def)

lemma hex_string_deadbeef: "hex_string [0xde, 0xad, 0xbe, 0xef] = ''deadbeef''"
  by (simp add: hex_string_def hex_byte_def digit_char_def)

lemma Sscanf_s_zero_tokens: "Sscanf_s ''0'' = Some ''0''" "Sscanf_s '' 0 bytes'' = Some ''0''"
  by (simp_all add: Sscanf_s_def first_word_def isSpace_def)

text \<open>
  C9. An empty variable-length byte sequence is printed as \<open>0 bytes\<close>; an entry whose
  token is the literal \<open>0\<close> (as in \<open>0\<close> itself and in \<open>0 bytes\<close>) is scanned to the
  empty sequence without an error; and a nonempty sequence within the bound, printed as
  its lowercase hexadecimal digits after the blank that follows the colon, is scanned
  back to the same bytes, whatever the field held before.
\<close>

theorem VecOpaque_print_scan:
  "PrintVecOpaque [] = ''0 bytes''
   \<and> (Sscanf_s v = Some ''0'' \<and> map_of (kvs xs) name = Some \<lparr>line = ln, val = v\<rparr>
        \<longrightarrow> Marshal_VecOpaque bound name old xs = ([], kvs_delete name xs))
   \<and> (bs \<noteq> [] \<and> length bs \<le> bound
        \<and> map_of (kvs xs) name = Some \<lparr>line = ln, val = CHR '' '' # PrintVecOpaque bs\<rparr>
        \<longrightarrow> PrintVecOpaque bs = hex_string bs
            \<and> Marshal_VecOpaque bound name old xs = (bs, kvs_delete name xs))"
proof (intro conjI impI)
  show "PrintVecOpaque [] = ''0 bytes''" by (simp add: PrintVecOpaque_def)
next
  assume "Sscanf_s v = Some ''0'' \<and> map_of (kvs xs) name = Some \<lparr>line = ln, val = v\<rparr>"
  then show "Marshal_VecOpaque bound name old xs = ([], kvs_delete name xs)"
    by (elim conjE) (rule Marshal_VecOpaque_zero)
next
  assume a: "bs \<noteq> [] \<and> length bs \<le> bound
        \<and> map_of (kvs xs) name = Some \<lparr>line = ln, val = CHR '' '' # PrintVecOpaque bs\<rparr>"
  then show "PrintVecOpaque bs = hex_string bs" by (simp add: PrintVecOpaque_def)
  from a show "Marshal_VecOpaque bound name old xs = (bs, kvs_delete name xs)"
    by (elim conjE) (rule Marshal_VecOpaque_roundtrip)
qed

theorem VecOpaque_print_scan_witness:
  "Sscanf_s '' 0 bytes'' = Some ''0''
   \<and> Marshal_VecOpaque 64 ''memo'' [1]
        \<lparr>kvs = [(''memo'', \<lparr>line = 3, val = '' 0 bytes''\<rparr>)], err = [], helps = []\<rparr>
      = ([], \<lparr>kvs = [], err = [], helps = []\<rparr>)
   \<and> [0xde, 0xad, 0xbe, 0xef] \<noteq> ([] :: byte list)
   \<and> length [0xde, 0xad, 0xbe, 0xef :: byte] \<le> 64
   \<and> PrintVecOpaque [0xde, 0xad, 0xbe, 0xef] = ''deadbeef''
   \<and> Marshal_VecOpaque 64 ''memo'' [1]
        \<lparr>kvs = [(''memo'', \<lparr>line = 3, val = '' deadbeef''\<rparr>)], err = [], helps = []\<rparr>
      = ([0xde, 0xad, 0xbe, 0xef], \<lparr>kvs = [], err = [], helps = []\<rparr>)"
proof -
  let ?t = "\<lambda>v. \<lparr>kvs = [(''memo'', \<lparr>line = 3, val = v\<rparr>)], err = [], helps = []\<rparr>"
  have a: "Marshal_VecOpaque 64 ''memo'' [1] (?t '' 0 bytes'') = ([], kvs_delete ''memo'' (?t '' 0 bytes''))"
    using VecOpaque_print_scan [where v = "'' 0 bytes''" and xs = "?t '' 0 bytes''" and name = "''memo''"
        and ln = 3 and bound = 64 and old = "[1]" and bs = "[]"]
    by (simp add: Sscanf_s_zero_tokens)
  have b: "Marshal_VecOpaque 64 ''memo'' [1] (?t '' deadbeef'')
             = ([0xde, 0xad, 0xbe, 0xef], kvs_delete ''memo'' (?t '' deadbeef''))"
    using VecOpaque_print_scan [where v = "''x''" and xs = "?t '' deadbeef''" and name = "''memo''"
        and ln = 3 and bound = 64 and old = "[1]" and bs = "[0xde, 0xad, 0xbe, 0xef]"]
    by (simp add: PrintVecOpaque_deadbeef hex_string_deadbeef)
  show ?thesis
    using a b by (simp add: Sscanf_s_zero_tokens PrintVecOpaque_deadbeef kvs_delete_def)
qed

section \<open>Reported errors do not steer the traversal\<close>

lemma with_err_simps [simp]:
  "kvs (with_err es xs) = kvs xs" "helps (with_err es xs) = helps xs"
  "err (with_err es xs) = es @ err xs"
  by (simp_all add: with_err_def)

lemma with_err_basic:
  "kvs_ok (with_err es xs) k = kvs_ok xs k"
  "kvs_get (with_err es xs) k = kvs_get xs k"
  "kvs_delete k (with_err es xs) = with_err es (kvs_delete k xs)"
  "report l m (with_err es xs) = with_err es (report l m xs)"
  "setHelp n (with_err es xs) = with_err es (setHelp n xs)"
  by (simp_all add: with_err_def kvs_ok_def kvs_get_def kvs_delete_def report_def setHelp_def)

lemma Marshal_Scanner_with_err:
  "Marshal_Scanner scan name v (with_err es xs) = apsnd (with_err es) (Marshal_Scanner scan name v xs)"
  by (simp add: Marshal_Scanner_def with_err_basic Let_def split: sum.splits)

lemma Marshal_ArrayOpaque_with_err:
  "Marshal_ArrayOpaque name k (with_err es xs) = apsnd (with_err es) (Marshal_ArrayOpaque name k xs)"
  by (simp add: Marshal_ArrayOpaque_def with_err_basic Let_def split: sum.splits)

lemma Marshal_VecOpaque_with_err:
  "Marshal_VecOpaque b name k (with_err es xs) = apsnd (with_err es) (Marshal_VecOpaque b name k xs)"
  by (simp add: Marshal_VecOpaque_def with_err_basic Let_def split: sum.splits)

lemma Marshal_XdrSize_with_err:
  "Marshal_XdrSize name v (with_err es xs) = apsnd (with_err es) (Marshal_XdrSize name v xs)"
  by (simp add: Marshal_XdrSize_def with_err_basic Let_def)

lemma Marshal_Ptr_present_with_err:
  "Marshal_Ptr_present d name (with_err es xs) = apsnd (with_err es) (Marshal_Ptr_present d name xs)"
  by (simp add: Marshal_Ptr_present_def with_err_basic Let_def)

lemmas case_with_err = Marshal_Scanner_with_err Marshal_ArrayOpaque_with_err
  Marshal_VecOpaque_with_err Marshal_XdrSize_with_err Marshal_Ptr_present_with_err with_err_basic

lemma Marshal_with_err:
  "xdrScan_Marshal ext d name t (with_err es xs) = apsnd (with_err es) (xdrScan_Marshal ext d name t xs)"
  "scan_XdrRecurse ext d name fs (with_err es xs) = apsnd (with_err es) (scan_XdrRecurse ext d name fs xs)"
  "scan_XdrMarshalN ext d name i n ts (with_err es xs) = apsnd (with_err es) (scan_XdrMarshalN ext d name i n ts xs)"
  "scan_XdrMarshalN_new ext d name i k z (with_err es xs) = apsnd (with_err es) (scan_XdrMarshalN_new ext d name i k z xs)"
proof (induction ext d name t xs and ext d name fs xs and ext d name i n ts xs and ext d name i k z xs
    rule: xdrScan_Marshal_scan_XdrRecurse_scan_XdrMarshalN_scan_XdrMarshalN_new.induct)
  case (1 ext d name k xs)
  then show ?case by (simp add: case_with_err Let_def split: prod.splits)
next
  case (2 ext d name bound bs xs)
  then show ?case by (simp add: case_with_err split: prod.splits)
next
  case (3 ext d name v xs)
  then show ?case by (simp add: case_with_err split: prod.splits)
next
  case (4 ext d name v entries xs)
  then show ?case by (simp add: case_with_err split: prod.splits)
next
  case (5 ext d name a xs)
  then show ?case by (simp add: case_with_err split: prod.splits)
next
  case (6 ext d name z p xs)
  then show ?case by (auto simp: case_with_err split: prod.splits option.splits)
next
  case (7 ext d name bound z es xs)
  then show ?case by (auto simp: case_with_err split: prod.splits option.splits)
next
  case (8 ext d name fs xs)
  then show ?case by (auto simp: case_with_err split: prod.splits option.splits)
next
  case (9 ext d name v xs)
  then show ?case by (simp add: case_with_err)
next
  case (10 ext d name xs)
  then show ?case by simp
next
  case (11 ext d name f fs xs)
  then show ?case by (auto simp: case_with_err split: prod.splits option.splits)
next
  case (12 ext d name i n xs)
  then show ?case by simp
next
  case (13 ext d name i n e es xs)
  then show ?case by (auto simp: case_with_err split: prod.splits option.splits)
next
  case (14 ext d name i z xs)
  then show ?case by simp
next
  case (15 ext d name i k z xs)
  then show ?case by (auto simp: case_with_err split: prod.splits option.splits)
qed

section \<open>Reading the lines: one line without a colon\<close>

lemma readKvs_loop_unfold:
  assumes "ReadTextLine inp = (bline, eof, rest)"
  shows "readKvs_loop inp n S =
     (if eof \<and> bline = [] then S
      else if bline = [] then readKvs_loop rest (n + 1) S
      else (case SplitN2 bline of
              None \<Rightarrow> readKvs_loop rest (n + 1) (report (n + 1) ''syntax error'' S)
            | Some (k, v) \<Rightarrow>
                readKvs_loop rest (n + 1)
                  (S\<lparr>kvs := AList.update k \<lparr>line = n + 1, val = v\<rparr> (kvs S)\<rparr>)))"
  using assms by (subst readKvs_loop.simps) simp

lemma readKvs_loop_with_err:
  "readKvs_loop inp n (with_err es xs) = with_err es (readKvs_loop inp n xs)"
proof (induction "length inp" arbitrary: inp n xs rule: less_induct)
  case less
  obtain bline eof rest where r: "ReadTextLine inp = (bline, eof, rest)"
    by (cases "ReadTextLine inp") auto
  have u: "(with_err es S)\<lparr>kvs := K\<rparr> = with_err es (S\<lparr>kvs := K\<rparr>)" for K S
    by (simp add: with_err_def)
  show ?case
  proof (cases "eof \<and> bline = []")
    case True
    then show ?thesis by (simp add: readKvs_loop_unfold [OF r])
  next
    case False
    then have "length rest < length inp" using ReadTextLine_shorter [OF r] by simp
    then have IH: "readKvs_loop rest m (with_err es S) = with_err es (readKvs_loop rest m S)" for m S
      by (rule less)
    show ?thesis
      using False by (simp add: readKvs_loop_unfold [OF r] IH with_err_basic u split: option.splits)
  qed
qed

lemma ReadTextLine_complete:
  assumes "A \<noteq> []" "last A = CHR 0x0A"
  obtains bline rest where "ReadTextLine A = (bline, False, rest)"
    and "ReadTextLine (A @ X) = (bline, False, rest @ X)"
    and "rest = [] \<or> last rest = CHR 0x0A"
    and "count_nl A = Suc (count_nl rest)"
proof -
  let ?P = "\<lambda>c. c \<noteq> CHR 0x0A"
  have m: "CHR 0x0A \<in> set A" using assms last_in_set [of A] by simp
  then have ne: "dropWhile ?P A \<noteq> []" by (auto simp: dropWhile_eq_Nil_conv)
  then obtain y ys where d: "dropWhile ?P A = y # ys" by (cases "dropWhile ?P A") auto
  have "\<not> ?P (hd (dropWhile ?P A))" using ne by (rule hd_dropWhile)
  with d have y: "y = CHR 0x0A" by simp
  have t: "takeWhile ?P (A @ X) = takeWhile ?P A"
    using m by (simp add: takeWhile_append1)
  have dx: "dropWhile ?P (A @ X) = dropWhile ?P A @ X"
    using m by (simp add: dropWhile_append1)
  have A: "A = takeWhile ?P A @ CHR 0x0A # ys"
    using takeWhile_dropWhile_id [of ?P A] d y by simp
  have 1: "ReadTextLine A = (fst (ReadTextLine A), False, ys)"
    by (simp add: ReadTextLine_def Let_def d)
  have 2: "ReadTextLine (A @ X) = (fst (ReadTextLine A), False, ys @ X)"
    by (simp add: ReadTextLine_def Let_def d dx t)
  have 3: "ys = [] \<or> last ys = CHR 0x0A"
  proof (cases "ys = []")
    case True then show ?thesis by simp
  next
    case False
    then have "last A = last ys" by (subst A) simp
    then show ?thesis using assms by simp
  qed
  have "\<forall>c \<in> set (takeWhile ?P A). c \<noteq> CHR 0x0A" by (auto dest: set_takeWhileD)
  then have "filter (\<lambda>c. c = CHR 0x0A) (takeWhile ?P A) = []"
    by (simp add: filter_empty_conv)
  then have 4: "count_nl A = Suc (count_nl ys)"
    by (subst A) (simp add: count_nl_def)
  from 1 2 3 4 show ?thesis by (rule that)
qed

lemma readKvs_loop_prefix:
  "A = [] \<or> last A = CHR 0x0A \<Longrightarrow>
     readKvs_loop (A @ X) n xs = readKvs_loop X (n + count_nl A) (readKvs_loop A n xs)"
proof (induction "length A" arbitrary: A n xs rule: less_induct)
  case less
  show ?case
  proof (cases "A = []")
    case True
    have "ReadTextLine [] = ([], True, [])" by (simp add: ReadTextLine_def)
    then have "readKvs_loop [] n xs = xs" by (simp add: readKvs_loop_unfold)
    with True show ?thesis by (simp add: count_nl_def)
  next
    case False
    with less.prems have l: "last A = CHR 0x0A" by simp
    from ReadTextLine_complete [OF False l, of X]
    obtain bline rest where r: "ReadTextLine A = (bline, False, rest)"
      and rx: "ReadTextLine (A @ X) = (bline, False, rest @ X)"
      and rc: "rest = [] \<or> last rest = CHR 0x0A"
      and cn: "count_nl A = Suc (count_nl rest)" by blast
    have "length rest < length A" using ReadTextLine_shorter [OF r] by simp
    then have IH: "readKvs_loop (rest @ X) m S
        = readKvs_loop X (m + count_nl rest) (readKvs_loop rest m S)" for m S
      using rc by (rule less.hyps)
    show ?thesis
      by (simp add: readKvs_loop_unfold [OF r] readKvs_loop_unfold [OF rx] IH cn split: option.splits)
  qed
qed

lemma readKvs_loop_err_grows:
  "err (readKvs_loop X n S) = err S @ err (readKvs_loop X n (S\<lparr>err := []\<rparr>))"
proof -
  have "with_err (err S) (S\<lparr>err := []\<rparr>) = S" by (simp add: with_err_def)
  then have "readKvs_loop X n S = with_err (err S) (readKvs_loop X n (S\<lparr>err := []\<rparr>))"
    using readKvs_loop_with_err [of X n "err S" "S\<lparr>err := []\<rparr>"] by (simp only:)
  then show ?thesis by simp
qed

lemma ReadTextLine_bad:
  assumes "R = [] \<or> hd R = CHR 0x0A" "bad \<noteq> []" "bad \<noteq> [CHR 0x0D]" "CHR 0x0A \<notin> set bad"
    "CHR '':'' \<notin> set bad"
  obtains bline where "ReadTextLine (bad @ R) = (bline, R = [], tl R)" "bline \<noteq> []"
    "SplitN2 bline = None"
proof -
  let ?P = "\<lambda>c. c \<noteq> CHR 0x0A"
  have tR: "takeWhile ?P R = []" using assms(1) by (cases R) auto
  have dR: "dropWhile ?P R = R" using assms(1) by (cases R) auto
  have nb: "\<And>x. x \<in> set bad \<Longrightarrow> x \<noteq> CHR 0x0A" using assms(4) by auto
  have t: "takeWhile ?P (bad @ R) = bad" using takeWhile_append2 [of bad ?P R] nb tR by simp
  have d: "dropWhile ?P (bad @ R) = R" using dropWhile_append2 [of bad ?P R] nb dR by simp
  let ?b = "if 0 < length bad \<and> bad ! (length bad - 1) = CHR 0x0D then butlast bad else bad"
  have 1: "ReadTextLine (bad @ R) = (?b, R = [], tl R)"
    by (simp add: ReadTextLine_def Let_def t d)
  have "butlast bad \<noteq> []" if "last bad = CHR 0x0D"
  proof
    assume "butlast bad = []"
    then have "bad = [last bad]" using assms(2) by (metis append_butlast_last_id append_Nil)
    with that assms(3) show False by simp
  qed
  then have 2: "?b \<noteq> []" using assms(2) by (auto simp: last_conv_nth)
  have "set ?b \<subseteq> set bad" by (auto dest: in_set_butlastD)
  then have 3: "SplitN2 ?b = None" using assms(5) by (auto simp: SplitN2_def)
  from 1 2 3 show ?thesis by (rule that)
qed

lemma readKvs_bad_line:
  assumes "A = [] \<or> last A = CHR 0x0A" and "R = [] \<or> hd R = CHR 0x0A"
    and "bad \<noteq> []" "bad \<noteq> [CHR 0x0D]" "CHR 0x0A \<notin> set bad" "CHR '':'' \<notin> set bad"
    and "err (readKvs (A @ R) S) = []"
  shows "readKvs (A @ bad @ R) S
           = with_err [(Suc (count_nl A), ''syntax error'')] (readKvs (A @ R) S)"
proof -
  let ?S = "S\<lparr>kvs := []\<rparr>"
  let ?SA = "readKvs_loop A 0 ?S"
  let ?n = "count_nl A"
  let ?e = "(Suc ?n, ''syntax error'')"
  have a: "readKvs (A @ bad @ R) S = readKvs_loop (bad @ R) ?n ?SA"
    using readKvs_loop_prefix [OF assms(1), of "bad @ R" 0 ?S] by (simp add: readKvs_def)
  have b: "readKvs (A @ R) S = readKvs_loop R ?n ?SA"
    using readKvs_loop_prefix [OF assms(1), of R 0 ?S] by (simp add: readKvs_def)
  from assms(7) b readKvs_loop_err_grows [of R ?n ?SA] have eA: "err ?SA = []" by simp
  then have rep: "report (Suc ?n) ''syntax error'' ?SA = with_err [?e] ?SA"
    by (simp add: report_def with_err_def)
  from ReadTextLine_bad [OF assms(2-6)] obtain bline where
    r: "ReadTextLine (bad @ R) = (bline, R = [], tl R)" and ne: "bline \<noteq> []"
    and sp: "SplitN2 bline = None" by blast
  have c: "readKvs_loop (bad @ R) ?n ?SA = readKvs_loop (tl R) (Suc ?n) (with_err [?e] ?SA)"
    using ne sp rep by (simp add: readKvs_loop_unfold [OF r])
  have d: "readKvs_loop R ?n ?SA = readKvs_loop (tl R) (Suc ?n) ?SA"
  proof (cases R)
    case Nil
    have "ReadTextLine [] = ([], True, [])" by (simp add: ReadTextLine_def)
    then have "readKvs_loop [] m T = T" for m T by (simp add: readKvs_loop_unfold)
    with Nil show ?thesis by simp
  next
    case (Cons c R')
    with assms(2) have rr: "ReadTextLine R = ([], False, R')" by (simp add: ReadTextLine_def)
    have "readKvs_loop R m T = readKvs_loop R' (Suc m) T" for m T
      by (simp add: readKvs_loop_unfold [OF rr])
    moreover have "tl R = R'" using Cons by simp
    ultimately show ?thesis by (simp only:)
  qed
  show ?thesis by (simp only: a b c d readKvs_loop_with_err)
qed




section \<open>Sizes of sequences\<close>

lemma XdrMarshalN_zero: "scan_XdrMarshalN ext d name i 0 ts S = ([], S)"
  by (cases ts) simp_all

lemma Marshal_XdrSize_absent:
  assumes "map_of (kvs xs) (name @ ''.len'') = None"
  shows "Marshal_XdrSize name \<lparr>Size = s0, Bound = bound\<rparr> xs
           = (\<lparr>Size = 0, Bound = bound\<rparr>, kvs_delete name xs)"
  using assms
  by (simp add: Marshal_XdrSize_def kvs_get_def ps_len_def Sscan_uint32_def Let_def)




lemma report_insert_err: "report l m S = insert_err (length (err S)) (l, m) S"
  by (simp add: report_def insert_err_def)


section \<open>A line without a colon\<close>

lemma count_nl_example: "count_nl (''a: 1'' @ [CHR 0x0A]) = 1"
  by (simp add: count_nl_def)

lemma readKvs_example:
  "readKvs (''a: 1'' @ [CHR 0x0A] @ [CHR 0x0A] @ ''b: 2'' @ [CHR 0x0A]) \<lparr>kvs = [], err = [], helps = []\<rparr>
     = \<lparr>kvs = [(''a'', \<lparr>line = 1, val = '' 1''\<rparr>), (''b'', \<lparr>line = 3, val = '' 2''\<rparr>)], err = [], helps = []\<rparr>"
  by (simp add: readKvs_def readKvs_loop.simps ReadTextLine_def SplitN2_def)

lemma Marshal_example:
  "xdrScan_Marshal demo_extern 0 '''' (Struct [(''a'', Scanner 0), (''b'', Scanner 0)])
      \<lparr>kvs = [(''a'', \<lparr>line = 1, val = '' 1''\<rparr>), (''b'', \<lparr>line = 3, val = '' 2''\<rparr>)], err = [], helps = []\<rparr>
    = (Struct [(''a'', Scanner 1), (''b'', Scanner 2)], \<lparr>kvs = [], err = [], helps = []\<rparr>)"
  by (simp add: childName_def Marshal_Scanner_def kvs_ok_def kvs_get_def kvs_delete_def demo_extern_def
      Sscan_uint32_def isSpace_def isDigit_def undec_def hex_val_def ends_with_question_def Let_def)

text \<open>
  C3. A document in which exactly one non-blank line has no colon, every other line
  being well formed: reading it reports exactly one syntax error, at the number of that
  line, and files the other lines as if the line were blank; the traversal then yields
  the same tree as for the document with the line blanked, and its list of errors is
  that of the blanked document after the syntax error. The document is \<open>A @ bad @ R\<close>:
  \<open>A\<close> the complete lines before the line, \<open>bad\<close> the line, \<open>R\<close> what follows it.
\<close>

theorem line_without_colon:
  assumes "A = [] \<or> last A = CHR 0x0A" and "R = [] \<or> hd R = CHR 0x0A"
    and "bad \<noteq> []" "bad \<noteq> [CHR 0x0D]" "CHR 0x0A \<notin> set bad" "CHR '':'' \<notin> set bad"
    and "err (readKvs (A @ R) \<lparr>kvs = [], err = [], helps = []\<rparr>) = []"
  shows "err (readKvs (A @ bad @ R) \<lparr>kvs = [], err = [], helps = []\<rparr>)
           = [(Suc (count_nl A), ''syntax error'')]
       \<and> kvs (readKvs (A @ bad @ R) \<lparr>kvs = [], err = [], helps = []\<rparr>)
           = kvs (readKvs (A @ R) \<lparr>kvs = [], err = [], helps = []\<rparr>)
       \<and> fst (XdrFromTxrep ext (A @ bad @ R) name t) = fst (XdrFromTxrep ext (A @ R) name t)
       \<and> err (snd (XdrFromTxrep ext (A @ bad @ R) name t))
           = (Suc (count_nl A), ''syntax error'') # err (snd (XdrFromTxrep ext (A @ R) name t))"
proof -
  let ?i = "\<lparr>kvs = [], err = [], helps = []\<rparr>"
  let ?e = "(Suc (count_nl A), ''syntax error'')"
  have r: "readKvs (A @ bad @ R) ?i = with_err [?e] (readKvs (A @ R) ?i)"
    using assms by (rule readKvs_bad_line)
  have x: "XdrFromTxrep ext (A @ bad @ R) name t
             = apsnd (with_err [?e]) (XdrFromTxrep ext (A @ R) name t)"
    by (simp only: XdrFromTxrep_def r Marshal_with_err)
  show ?thesis using assms(7) by (simp add: r x)
qed

theorem line_without_colon_witness:
  "(''a: 1'' @ [CHR 0x0A] = [] \<or> last (''a: 1'' @ [CHR 0x0A]) = CHR 0x0A)
   \<and> ([CHR 0x0A] @ ''b: 2'' @ [CHR 0x0A] = [] \<or> hd ([CHR 0x0A] @ ''b: 2'' @ [CHR 0x0A]) = CHR 0x0A)
   \<and> ''bogus'' \<noteq> [] \<and> ''bogus'' \<noteq> [CHR 0x0D] \<and> CHR 0x0A \<notin> set ''bogus'' \<and> CHR '':'' \<notin> set ''bogus''
   \<and> fst (XdrFromTxrep demo_extern (''a: 1'' @ [CHR 0x0A] @ ''bogus'' @ [CHR 0x0A] @ ''b: 2'' @ [CHR 0x0A]) ''''
          (Struct [(''a'', Scanner 0), (''b'', Scanner 0)]))
       = Struct [(''a'', Scanner 1), (''b'', Scanner 2)]
   \<and> err (snd (XdrFromTxrep demo_extern (''a: 1'' @ [CHR 0x0A] @ ''bogus'' @ [CHR 0x0A] @ ''b: 2'' @ [CHR 0x0A]) ''''
          (Struct [(''a'', Scanner 0), (''b'', Scanner 0)])))
       = [(2, ''syntax error'')]"
proof -
  let ?A = "''a: 1'' @ [CHR 0x0A]" and ?R = "[CHR 0x0A] @ ''b: 2'' @ [CHR 0x0A]"
  let ?t = "Struct [(''a'', Scanner (0::nat)), (''b'', Scanner 0)]"
  have c: "readKvs (?A @ ?R) \<lparr>kvs = [], err = [], helps = []\<rparr>
     = \<lparr>kvs = [(''a'', \<lparr>line = 1, val = '' 1''\<rparr>), (''b'', \<lparr>line = 3, val = '' 2''\<rparr>)], err = [], helps = []\<rparr>"
    using readKvs_example by simp
  have d: "XdrFromTxrep demo_extern (?A @ ?R) '''' ?t
      = (Struct [(''a'', Scanner 1), (''b'', Scanner 2)], \<lparr>kvs = [], err = [], helps = []\<rparr>)"
    by (simp only: XdrFromTxrep_def c Marshal_example)
  have h: "err (readKvs (?A @ ?R) \<lparr>kvs = [], err = [], helps = []\<rparr>) = []"
    by (simp only: c) simp
  have "fst (XdrFromTxrep demo_extern (?A @ ''bogus'' @ ?R) '''' ?t) = fst (XdrFromTxrep demo_extern (?A @ ?R) '''' ?t)
       \<and> err (snd (XdrFromTxrep demo_extern (?A @ ''bogus'' @ ?R) '''' ?t))
           = (Suc (count_nl ?A), ''syntax error'') # err (snd (XdrFromTxrep demo_extern (?A @ ?R) '''' ?t))"
    using line_without_colon [of ?A ?R "''bogus''" demo_extern "''''" ?t] h by simp
  then show ?thesis using d count_nl_example by simp
qed

text \<open>
  C10. When the key \<open>name.len\<close> is not in the table, the XdrSize case stores the
  size 0 whatever size the value had, and records no error; a sequence decoded there
  comes out empty. The other scalar kinds return at once on an absent key and keep
  their value.
\<close>

theorem absent_len_sets_size_zero:
  "(map_of (kvs xs) (name @ ''.len'') = None \<longrightarrow>
      Marshal_XdrSize name \<lparr>Size = s0, Bound = bound\<rparr> xs
        = (\<lparr>Size = 0, Bound = bound\<rparr>, kvs_delete name xs)
      \<and> err (snd (Marshal_XdrSize name \<lparr>Size = s0, Bound = bound\<rparr> xs)) = err xs
      \<and> xdrScan_Marshal ext d name (Vec bound z es) xs
        = (Vec bound z [], kvs_delete name (kvs_delete name xs)))
   \<and> (map_of (kvs xs) name = None \<longrightarrow>
      xdrScan_Marshal ext d name (Scanner v) xs = (Scanner v, xs)
      \<and> xdrScan_Marshal ext d name (EnumNames v entries) xs = (EnumNames v entries, xs)
      \<and> xdrScan_Marshal ext d name (Account a) xs = (Account a, xs)
      \<and> xdrScan_Marshal ext d name (VecOpaque bound bs) xs = (VecOpaque bound bs, xs)
      \<and> xdrScan_Marshal ext d name (Plain v) xs = (Plain v, xs))"
proof (intro conjI impI)
  assume a: "map_of (kvs xs) (name @ ''.len'') = None"
  show s: "Marshal_XdrSize name \<lparr>Size = s0, Bound = bound\<rparr> xs
        = (\<lparr>Size = 0, Bound = bound\<rparr>, kvs_delete name xs)"
    using a by (rule Marshal_XdrSize_absent)
  show "err (snd (Marshal_XdrSize name \<lparr>Size = s0, Bound = bound\<rparr> xs)) = err xs"
    by (simp add: s kvs_delete_def)
  show "xdrScan_Marshal ext d name (Vec bound z es) xs
        = (Vec bound z [], kvs_delete name (kvs_delete name xs))"
    by (simp add: Marshal_XdrSize_absent [OF a] XdrMarshalN_zero)
next
  assume b: "map_of (kvs xs) name = None"
  show "xdrScan_Marshal ext d name (Scanner v) xs = (Scanner v, xs)"
    using b by (simp add: Marshal_Scanner_def kvs_ok_def)
  show "xdrScan_Marshal ext d name (EnumNames v entries) xs = (EnumNames v entries, xs)"
    using b by (simp add: Marshal_Scanner_def kvs_ok_def)
  show "xdrScan_Marshal ext d name (Account a) xs = (Account a, xs)"
    using b by (simp add: Marshal_Scanner_def kvs_ok_def)
  show "xdrScan_Marshal ext d name (VecOpaque bound bs) xs = (VecOpaque bound bs, xs)"
    using b by (simp add: Marshal_VecOpaque_def kvs_ok_def)
  show "xdrScan_Marshal ext d name (Plain v) xs = (Plain v, xs)"
    using b by (simp add: kvs_ok_def)
qed

theorem absent_len_sets_size_zero_witness:
  "map_of (kvs \<lparr>kvs = [(''fee'', \<lparr>line = 1, val = '' 100''\<rparr>)], err = [], helps = []\<rparr>) (''ops'' @ ''.len'') = None
   \<and> Marshal_XdrSize ''ops'' \<lparr>Size = 2, Bound = 100\<rparr>
        \<lparr>kvs = [(''fee'', \<lparr>line = 1, val = '' 100''\<rparr>)], err = [], helps = []\<rparr>
      = (\<lparr>Size = 0, Bound = 100\<rparr>,
         kvs_delete ''ops'' \<lparr>kvs = [(''fee'', \<lparr>line = 1, val = '' 100''\<rparr>)], err = [], helps = []\<rparr>)
   \<and> xdrScan_Marshal demo_extern 0 ''ops'' (Vec 100 (Scanner 0) [Scanner 7, Scanner 8])
        \<lparr>kvs = [(''fee'', \<lparr>line = 1, val = '' 100''\<rparr>)], err = [], helps = []\<rparr>
      = (Vec 100 (Scanner 0) [],
         kvs_delete ''ops'' (kvs_delete ''ops''
           \<lparr>kvs = [(''fee'', \<lparr>line = 1, val = '' 100''\<rparr>)], err = [], helps = []\<rparr>))
   \<and> map_of (kvs \<lparr>kvs = [(''fee'', \<lparr>line = 1, val = '' 100''\<rparr>)], err = [], helps = []\<rparr>) ''seq'' = None
   \<and> xdrScan_Marshal demo_extern 0 ''seq'' (Scanner 7)
        \<lparr>kvs = [(''fee'', \<lparr>line = 1, val = '' 100''\<rparr>)], err = [], helps = []\<rparr>
      = (Scanner 7, \<lparr>kvs = [(''fee'', \<lparr>line = 1, val = '' 100''\<rparr>)], err = [], helps = []\<rparr>)"
proof -
  let ?xs = "\<lparr>kvs = [(''fee'', \<lparr>line = 1, val = '' 100''\<rparr>)], err = [], helps = []\<rparr>"
  have h1: "map_of (kvs ?xs) (''ops'' @ ''.len'') = None" by simp
  have h2: "map_of (kvs ?xs) ''seq'' = None" by simp
  note T1 = absent_len_sets_size_zero [where xs = ?xs and name = "''ops''" and ?s0.0 = 2 and bound = 100
        and ext = demo_extern and d = 0 and z = "Scanner 0" and es = "[Scanner 7, Scanner 8]"]
  note T2 = absent_len_sets_size_zero [where xs = ?xs and name = "''seq''" and ext = demo_extern and d = 0
        and v = 7]
  from T1 h1 have a: "Marshal_XdrSize ''ops'' \<lparr>Size = 2, Bound = 100\<rparr> ?xs
      = (\<lparr>Size = 0, Bound = 100\<rparr>, kvs_delete ''ops'' ?xs)"
    and b: "xdrScan_Marshal demo_extern 0 ''ops'' (Vec 100 (Scanner 0) [Scanner 7, Scanner 8]) ?xs
      = (Vec 100 (Scanner 0) [], kvs_delete ''ops'' (kvs_delete ''ops'' ?xs))"
    by blast+
  from T2 h2 have c: "xdrScan_Marshal demo_extern 0 ''seq'' (Scanner 7) ?xs = (Scanner 7, ?xs)"
    by blast
  from h1 a b h2 c show ?thesis by blast
qed



section \<open>The help list of an enum\<close>

lemma enum_list_True: "enum_list True ss = concat (map (\<lambda>t. '', '' @ t) ss)"
  by (induction ss) simp_all

lemma join_comma_Cons: "join_comma (s # ss) = s @ concat (map (\<lambda>t. '', '' @ t) ss)"
  by (induction ss arbitrary: s) simp_all

lemma enum_list_join: "enum_list False ss = join_comma ss"
  by (cases ss) (simp_all add: enum_list_True join_comma_Cons)

text \<open>
  C7 as stated: the help list is in ascending ordinal order. The entries of the symbol
  table \<open>{0: A, 1: B}\<close> may be yielded by \<open>range\<close> in the order \<open>1, 0\<close>; the line
  written then lists \<open>B\<close> before \<open>A\<close>.
\<close>

theorem enum_help_order_counterexample:
  "txStringCtx_Marshal (demo_extern\<lparr>ext_String := (\<lambda>v. if v = 0 then ''A'' else ''B'')\<rparr>)
       \<lparr>accountIDNote = (\<lambda>a. []), getHelp = (\<lambda>name. True)\<rparr> 0 ''type''
       (EnumNames 0 [(1, ''B''), (0, ''A'')])
     = ''type: A (B, A)'' @ [CHR 0x0A]
   \<and> help_line_ascending ''type'' ''A'' [(1, ''B''), (0, ''A'')] = ''type: A (A, B)'' @ [CHR 0x0A]
   \<and> txStringCtx_Marshal (demo_extern\<lparr>ext_String := (\<lambda>v. if v = 0 then ''A'' else ''B'')\<rparr>)
       \<lparr>accountIDNote = (\<lambda>a. []), getHelp = (\<lambda>name. True)\<rparr> 0 ''type''
       (EnumNames 0 [(1, ''B''), (0, ''A'')])
     \<noteq> help_line_ascending ''type'' ''A'' [(1, ''B''), (0, ''A'')]"
  by (simp add: Marshal_enum_def help_line_ascending_def)

text \<open>
  C7, amended. For every enum field for which the help query returns true, the line
  written is \<open>name: symbol (sym1, sym2, ...)\<close>, listing the symbol of every entry of
  the enum's symbol table once, in the order in which the iteration over the table
  yields the entries; when that order is the ascending order of the ordinals, the list
  is in ascending ordinal order.
\<close>

theorem enum_help_lists_symbols:
  "getHelp xp name \<longrightarrow>
     txStringCtx_Marshal ext xp d name (EnumNames v entries)
       = name @ '': '' @ ext_String ext v @ '' ('' @ join_comma (map snd entries) @ '')'' @ [CHR 0x0A]
     \<and> (sorted (map fst entries) \<longrightarrow>
          txStringCtx_Marshal ext xp d name (EnumNames v entries)
            = help_line_ascending name (ext_String ext v) entries)"
  by (simp add: Marshal_enum_def help_line_ascending_def enum_list_join sort_key_id_if_sorted)

theorem enum_help_lists_symbols_witness:
  "getHelp \<lparr>accountIDNote = (\<lambda>a. []), getHelp = (\<lambda>name. True)\<rparr> ''type''
   \<and> sorted (map fst [(0 :: int, ''A''), (1, ''B'')])
   \<and> txStringCtx_Marshal (demo_extern\<lparr>ext_String := (\<lambda>v. if v = 0 then ''A'' else ''B'')\<rparr>)
       \<lparr>accountIDNote = (\<lambda>a. []), getHelp = (\<lambda>name. True)\<rparr> 0 ''type''
       (EnumNames 1 [(0, ''A''), (1, ''B'')])
     = ''type: B (A, B)'' @ [CHR 0x0A]"
proof -
  let ?ext = "demo_extern\<lparr>ext_String := (\<lambda>v. if v = 0 then ''A'' else ''B'')\<rparr>"
  let ?xp = "\<lparr>accountIDNote = (\<lambda>a. []), getHelp = (\<lambda>name. True)\<rparr>"
  have h: "getHelp ?xp ''type''" by simp
  have s: "sorted (map fst [(0 :: int, ''A''), (1, ''B'')])" by simp
  from enum_help_lists_symbols [of ?xp "''type''" ?ext 0 1 "[(0, ''A''), (1, ''B'')]"] h
  have "txStringCtx_Marshal ?ext ?xp 0 ''type'' (EnumNames 1 [(0, ''A''), (1, ''B'')])
       = ''type'' @ '': '' @ ext_String ?ext 1 @ '' ('' @ join_comma (map snd [(0 :: int, ''A''), (1, ''B'')])
           @ '')'' @ [CHR 0x0A]"
    by blast
  then have "txStringCtx_Marshal ?ext ?xp 0 ''type'' (EnumNames 1 [(0, ''A''), (1, ''B'')])
       = ''type: B (A, B)'' @ [CHR 0x0A]"
    by simp
  with h s show ?thesis by blast
qed

section \<open>Optional fields\<close>

lemma Marshal_Ptr_present_token:
  assumes "Sscanf_s (val (kvs_get xs (name @ present dp))) = Some w"
  shows "fst (Marshal_Ptr_present dp name xs) = (w \<noteq> ''false'')"
  using assms by (simp add: Marshal_Ptr_present_def Let_def)

lemma Sscanf_s_empty: "Sscanf_s [] = None"
  by (simp add: Sscanf_s_def first_word_def)

lemma Marshal_Ptr_present_absent:
  assumes "map_of (kvs xs) (name @ present dp) = None"
  shows "Marshal_Ptr_present dp name xs
           = (map_of (kvs xs) name \<noteq> None \<or> (\<exists>f \<in> set (map fst (kvs xs)). HasPrefix f (name @ ''.'')), xs)"
  using assms
  by (auto simp: Marshal_Ptr_present_def Let_def kvs_get_def kvs_ok_def Sscanf_s_empty list_ex_iff)

lemma Marshal_Ptr_unfold:
  "xdrScan_Marshal ext d name (Ptr z p) xs
     = (case Marshal_Ptr_present (d + 1) name xs of
          (b, xs1) \<Rightarrow>
            if b then (case xdrScan_Marshal ext (d + 1) name (case p of None \<Rightarrow> z | Some c \<Rightarrow> c) xs1 of
                         (c', xs2) \<Rightarrow> (Ptr z (Some c'), kvs_delete name xs2))
            else (Ptr z None, kvs_delete name xs1))"
  by (cases p) (simp_all split: prod.splits)

text \<open>
  C5 as stated: with the key of the presence pseudo-field absent, presence is false
  unless some key starts with the dotted prefix of the field. For the optional scalar
  \<open>x\<close> and the one-line document \<open>x: 5\<close> neither exists, and the field is decoded
  as present, with the value 5.
\<close>

theorem optional_default_counterexample:
  "map_of (kvs \<lparr>kvs = [(''x'', \<lparr>line = 1, val = '' 5''\<rparr>)], err = [], helps = []\<rparr>)
       (''x'' @ present 1) = None
   \<and> \<not> (\<exists>f \<in> set (map fst (kvs \<lparr>kvs = [(''x'', \<lparr>line = 1, val = '' 5''\<rparr>)], err = [], helps = []\<rparr>)).
           HasPrefix f (''x'' @ ''.''))
   \<and> xdrScan_Marshal demo_extern 0 ''x'' (Ptr (Scanner 0) None)
        \<lparr>kvs = [(''x'', \<lparr>line = 1, val = '' 5''\<rparr>)], err = [], helps = []\<rparr>
      = (Ptr (Scanner 0) (Some (Scanner 5)), \<lparr>kvs = [], err = [], helps = []\<rparr>)"
  by (simp add: present_def ps_present_def HasPrefix_def Marshal_Ptr_present_def Let_def kvs_get_def
      kvs_ok_def Sscanf_s_def first_word_def Marshal_Scanner_def demo_extern_def Sscan_uint32_def
      isSpace_def isDigit_def undec_def hex_val_def ends_with_question_def kvs_delete_def)

text \<open>
  C5, amended. For every decode of an optional field: when the entry of its presence
  pseudo-key holds a token, the field is absent if the token is \<open>false\<close> and present
  otherwise; when that key is absent, it is present if the field's own name is a key of
  the table or some key starts with the field's dotted prefix, and absent otherwise,
  and nothing is reported; and the inner node (the pointee, or a fresh zero value) is
  scanned under the field's name whenever the field is present, an absent field having
  no inner node to scan.
\<close>

theorem optional_presence:
  "(Sscanf_s (val (kvs_get xs (name @ present (d + 1)))) = Some w \<longrightarrow>
      fst (Marshal_Ptr_present (d + 1) name xs) = (w \<noteq> ''false''))
   \<and> (map_of (kvs xs) (name @ present (d + 1)) = None \<longrightarrow>
      Marshal_Ptr_present (d + 1) name xs
        = (map_of (kvs xs) name \<noteq> None
             \<or> (\<exists>f \<in> set (map fst (kvs xs)). HasPrefix f (name @ ''.'')), xs))
   \<and> xdrScan_Marshal ext d name (Ptr z p) xs
       = (case Marshal_Ptr_present (d + 1) name xs of
            (b, xs1) \<Rightarrow>
              if b then (case xdrScan_Marshal ext (d + 1) name
                                (case p of None \<Rightarrow> z | Some c \<Rightarrow> c) xs1 of
                           (c', xs2) \<Rightarrow> (Ptr z (Some c'), kvs_delete name xs2))
              else (Ptr z None, kvs_delete name xs1))"
  using Marshal_Ptr_present_token [of xs name "d + 1" w] Marshal_Ptr_present_absent [of xs name "d + 1"]
    Marshal_Ptr_unfold [of ext d name z p xs]
  by blast

theorem optional_presence_witness:
  "Sscanf_s (val (kvs_get \<lparr>kvs = [(''x._present'', \<lparr>line = 1, val = '' true''\<rparr>)], err = [], helps = []\<rparr>
                (''x'' @ present (0 + 1)))) = Some ''true''
   \<and> fst (Marshal_Ptr_present (0 + 1) ''x''
            \<lparr>kvs = [(''x._present'', \<lparr>line = 1, val = '' true''\<rparr>)], err = [], helps = []\<rparr>) = True
   \<and> map_of (kvs \<lparr>kvs = [(''x.a'', \<lparr>line = 1, val = '' 5''\<rparr>)], err = [], helps = []\<rparr>)
         (''x'' @ present (0 + 1)) = None
   \<and> fst (Marshal_Ptr_present (0 + 1) ''x''
            \<lparr>kvs = [(''x.a'', \<lparr>line = 1, val = '' 5''\<rparr>)], err = [], helps = []\<rparr>) = True
   \<and> map_of (kvs \<lparr>kvs = [(''y'', \<lparr>line = 1, val = '' 5''\<rparr>)], err = [], helps = []\<rparr>)
         (''x'' @ present (0 + 1)) = None
   \<and> fst (Marshal_Ptr_present (0 + 1) ''x''
            \<lparr>kvs = [(''y'', \<lparr>line = 1, val = '' 5''\<rparr>)], err = [], helps = []\<rparr>) = False"
proof -
  let ?t1 = "\<lparr>kvs = [(''x._present'', \<lparr>line = 1, val = '' true''\<rparr>)], err = [], helps = []\<rparr>"
  let ?t2 = "\<lparr>kvs = [(''x.a'', \<lparr>line = 1, val = '' 5''\<rparr>)], err = [], helps = []\<rparr>"
  let ?t3 = "\<lparr>kvs = [(''y'', \<lparr>line = 1, val = '' 5''\<rparr>)], err = [], helps = []\<rparr>"
  have h1: "Sscanf_s (val (kvs_get ?t1 (''x'' @ present (0 + 1)))) = Some ''true''"
    by (simp add: present_def ps_present_def kvs_get_def Sscanf_s_def first_word_def isSpace_def)
  have h2: "map_of (kvs ?t2) (''x'' @ present (0 + 1)) = None"
    by (simp add: present_def ps_present_def)
  have h3: "map_of (kvs ?t3) (''x'' @ present (0 + 1)) = None"
    by (simp add: present_def ps_present_def)
  from optional_presence [of ?t1 "''x''" 0 "''true''"] h1
  have a: "fst (Marshal_Ptr_present (0 + 1) ''x'' ?t1) = (''true'' \<noteq> ''false'')" by blast
  from optional_presence [of ?t2 "''x''" 0] h2
  have b: "Marshal_Ptr_present (0 + 1) ''x'' ?t2
        = (map_of (kvs ?t2) ''x'' \<noteq> None
             \<or> (\<exists>f \<in> set (map fst (kvs ?t2)). HasPrefix f (''x'' @ ''.'')), ?t2)" by blast
  from optional_presence [of ?t3 "''x''" 0] h3
  have c: "Marshal_Ptr_present (0 + 1) ''x'' ?t3
        = (map_of (kvs ?t3) ''x'' \<noteq> None
             \<or> (\<exists>f \<in> set (map fst (kvs ?t3)). HasPrefix f (''x'' @ ''.'')), ?t3)" by blast
  from a have a': "fst (Marshal_Ptr_present (0 + 1) ''x'' ?t1) = True" by simp
  from b have b': "fst (Marshal_Ptr_present (0 + 1) ''x'' ?t2) = True"
    by (simp only: fst_conv) (simp add: HasPrefix_def)
  from c have c': "fst (Marshal_Ptr_present (0 + 1) ''x'' ?t3) = False"
    by (simp only: fst_conv) (simp add: HasPrefix_def)
  from h1 a' h2 b' h3 c' show ?thesis by blast
qed

section \<open>The source account of a version-0 transaction\<close>

lemma copy_same_length: "length dst = length src \<Longrightarrow> copy dst src = src"
  by (simp add: copy_def)

lemma shim_absent:
  assumes "length k = 32" "HasSuffix name ''tx.sourceAccountEd25519''"
    and "map_of (kvs xs) (take (length name - 20) name @ ''sourceAccount'') = None"
  shows "xdrScan_Marshal ext d name (ArrayOpaque k) xs = (ArrayOpaque k, xs)"
  using assms by (simp add: Let_def kvs_ok_def)

lemma shim_scan:
  assumes "length k = 32" "HasSuffix name ''tx.sourceAccountEd25519''"
    and "map_of (kvs xs) (take (length name - 20) name @ ''sourceAccount'') = Some \<lparr>line = ln, val = v\<rparr>"
    and "acct_Scan ext (AccountID PUBLIC_KEY_TYPE_ED25519 (replicate 32 0)) v
           = Inr (AccountID PUBLIC_KEY_TYPE_ED25519 key)"
    and "length key = 32"
  shows "fst (xdrScan_Marshal ext d name (ArrayOpaque k) xs) = ArrayOpaque key"
    and "err (snd (xdrScan_Marshal ext d name (ArrayOpaque k) xs)) = err xs"
  using assms
  by (simp_all add: Let_def kvs_ok_def kvs_get_def Marshal_Scanner_def copy_same_length
      kvs_delete_def setHelp_def)

lemma shim_encode:
  assumes "length k = 32" "HasSuffix name ''tx.sourceAccountEd25519''"
  shows "txStringCtx_Marshal ext xp d name (ArrayOpaque k)
           = take (length name - 20) name @ ''sourceAccount'' @ '': ''
             @ acct_String ext (AccountID PUBLIC_KEY_TYPE_ED25519 k)
             @ (if accountIDNote xp (AccountID PUBLIC_KEY_TYPE_ED25519 k) \<noteq> []
                then '' ('' @ accountIDNote xp (AccountID PUBLIC_KEY_TYPE_ED25519 k) @ '')'' else [])
             @ [CHR 0x0A]"
  using assms by (simp add: Marshal_AccountID_def Let_def copy_same_length)

lemma readKvs_legacy:
  "readKvs (''tx.sourceAccountEd25519: 0101010101010101010101010101010101010101010101010101010101010101'' @ [CHR 0x0A]) \<lparr>kvs = [], err = [], helps = []\<rparr>
     = \<lparr>kvs = [(''tx.sourceAccountEd25519'', \<lparr>line = 1, val = '' 0101010101010101010101010101010101010101010101010101010101010101''\<rparr>)], err = [], helps = []\<rparr>"
  by (simp add: readKvs_def readKvs_loop.simps ReadTextLine_def SplitN2_def)

lemma readKvs_short:
  "readKvs (''tx.sourceAccount: G0101010101010101010101010101010101010101010101010101010101010101'' @ [CHR 0x0A]) \<lparr>kvs = [], err = [], helps = []\<rparr>
     = \<lparr>kvs = [(''tx.sourceAccount'', \<lparr>line = 1, val = '' G0101010101010101010101010101010101010101010101010101010101010101''\<rparr>)], err = [], helps = []\<rparr>"
  by (simp add: readKvs_def readKvs_loop.simps ReadTextLine_def SplitN2_def)

lemma demo_scan_account:
  "acct_Scan demo_extern a '' G0101010101010101010101010101010101010101010101010101010101010101'' = Inr (AccountID PUBLIC_KEY_TYPE_ED25519 (replicate 32 1))"
  by (simp add: demo_extern_def first_word_def isSpace_def Scan_ArrayOpaque_def hex_val_def
      eval_nat_numeral)

text \<open>
  C4 as stated: a document giving the legacy key \<open>tx.sourceAccountEd25519\<close> with the
  32 bytes in hexadecimal decodes to the same field as one giving \<open>tx.sourceAccount\<close>
  with the address of the same key. Decoded into a transaction whose source account is
  all zero, the first leaves the field zero (the legacy key is never looked up), the
  second stores the key.
\<close>

theorem legacy_source_account_counterexample:
  "fst (XdrFromTxrep demo_extern (''tx.sourceAccountEd25519: 0101010101010101010101010101010101010101010101010101010101010101'' @ [CHR 0x0A]) []
          (Struct [(''tx'', Struct [(''sourceAccountEd25519'', ArrayOpaque (replicate 32 0))])]))
     = Struct [(''tx'', Struct [(''sourceAccountEd25519'', ArrayOpaque (replicate 32 0))])]
   \<and> fst (XdrFromTxrep demo_extern (''tx.sourceAccount: G0101010101010101010101010101010101010101010101010101010101010101'' @ [CHR 0x0A]) []
          (Struct [(''tx'', Struct [(''sourceAccountEd25519'', ArrayOpaque (replicate 32 0))])]))
     = Struct [(''tx'', Struct [(''sourceAccountEd25519'', ArrayOpaque (replicate 32 1))])]"
proof -
  let ?n = "''tx.sourceAccountEd25519''"
  have s: "HasSuffix ?n ''tx.sourceAccountEd25519''" by (simp add: HasSuffix_def)
  have n': "take (length ?n - 20) ?n @ ''sourceAccount'' = ''tx.sourceAccount''" by simp
  have l: "length (replicate 32 (0::byte)) = 32" by simp
  have a: "xdrScan_Marshal demo_extern 0 ?n (ArrayOpaque (replicate 32 0))
             \<lparr>kvs = [(''tx.sourceAccountEd25519'', \<lparr>line = 1, val = '' 0101010101010101010101010101010101010101010101010101010101010101''\<rparr>)], err = [], helps = []\<rparr>
           = (ArrayOpaque (replicate 32 0),
              \<lparr>kvs = [(''tx.sourceAccountEd25519'', \<lparr>line = 1, val = '' 0101010101010101010101010101010101010101010101010101010101010101''\<rparr>)], err = [], helps = []\<rparr>)"
    by (rule shim_absent [OF l s]) (simp only: n', simp)
  have b: "fst (xdrScan_Marshal demo_extern 0 ?n (ArrayOpaque (replicate 32 0))
             \<lparr>kvs = [(''tx.sourceAccount'', \<lparr>line = 1, val = '' G0101010101010101010101010101010101010101010101010101010101010101''\<rparr>)], err = [], helps = []\<rparr>)
           = ArrayOpaque (replicate 32 1)"
    by (rule shim_scan(1) [OF l s, where ln = 1 and v = "'' G0101010101010101010101010101010101010101010101010101010101010101''"])
       (simp only: n', simp, rule demo_scan_account, simp)
  obtain S where b': "xdrScan_Marshal demo_extern 0 ?n (ArrayOpaque (replicate 32 0))
             \<lparr>kvs = [(''tx.sourceAccount'', \<lparr>line = 1, val = '' G0101010101010101010101010101010101010101010101010101010101010101''\<rparr>)], err = [], helps = []\<rparr>
           = (ArrayOpaque (replicate 32 1), S)"
    using b by (metis prod.collapse)
  have c1: "childName [] ''tx'' = ''tx''" "childName ''tx'' ''sourceAccountEd25519'' = ?n"
    by (simp_all add: childName_def)
  show ?thesis
    by (simp only: XdrFromTxrep_def readKvs_legacy readKvs_short xdrScan_Marshal.simps(8)
        scan_XdrRecurse.simps c1 a b' fst_conv snd_conv prod.case)
qed

text \<open>
  C4, amended. For a 32-byte fixed field visited under a name ending in
  \<open>tx.sourceAccountEd25519\<close>: a document giving the source account under the
  shortened name \<open>...tx.sourceAccount\<close> as an Ed25519-typed address decodes into the
  field the 32 key bytes of that address, without an error, and encoding the resulting
  field writes the line of the shortened name with the address of the key; the decoder
  reads the shortened name only, so a document that does not give it (one giving the
  legacy key in hexadecimal, say) leaves the field as it was.
\<close>

theorem source_account_shim:
  assumes "length k = 32" and "HasSuffix name ''tx.sourceAccountEd25519''"
  shows "(map_of (kvs xs) (take (length name - 20) name @ ''sourceAccount'')
            = Some \<lparr>line = ln, val = v\<rparr>
          \<and> acct_Scan ext (AccountID PUBLIC_KEY_TYPE_ED25519 (replicate 32 0)) v
              = Inr (AccountID PUBLIC_KEY_TYPE_ED25519 key)
          \<and> length key = 32
          \<longrightarrow> fst (xdrScan_Marshal ext d name (ArrayOpaque k) xs) = ArrayOpaque key
              \<and> err (snd (xdrScan_Marshal ext d name (ArrayOpaque k) xs)) = err xs
              \<and> txStringCtx_Marshal ext xp d name (ArrayOpaque key)
                  = take (length name - 20) name @ ''sourceAccount'' @ '': ''
                    @ acct_String ext (AccountID PUBLIC_KEY_TYPE_ED25519 key)
                    @ (if accountIDNote xp (AccountID PUBLIC_KEY_TYPE_ED25519 key) \<noteq> []
                       then '' ('' @ accountIDNote xp (AccountID PUBLIC_KEY_TYPE_ED25519 key) @ '')''
                       else [])
                    @ [CHR 0x0A])
       \<and> (map_of (kvs xs) (take (length name - 20) name @ ''sourceAccount'') = None
          \<longrightarrow> xdrScan_Marshal ext d name (ArrayOpaque k) xs = (ArrayOpaque k, xs))"
proof (intro conjI impI)
  assume a: "map_of (kvs xs) (take (length name - 20) name @ ''sourceAccount'')
            = Some \<lparr>line = ln, val = v\<rparr>
          \<and> acct_Scan ext (AccountID PUBLIC_KEY_TYPE_ED25519 (replicate 32 0)) v
              = Inr (AccountID PUBLIC_KEY_TYPE_ED25519 key)
          \<and> length key = 32"
  then show "fst (xdrScan_Marshal ext d name (ArrayOpaque k) xs) = ArrayOpaque key"
    using shim_scan(1) [OF assms] by blast
  from a show "err (snd (xdrScan_Marshal ext d name (ArrayOpaque k) xs)) = err xs"
    using shim_scan(2) [OF assms] by blast
  from a have "length key = 32" by blast
  then show "txStringCtx_Marshal ext xp d name (ArrayOpaque key)
                  = take (length name - 20) name @ ''sourceAccount'' @ '': ''
                    @ acct_String ext (AccountID PUBLIC_KEY_TYPE_ED25519 key)
                    @ (if accountIDNote xp (AccountID PUBLIC_KEY_TYPE_ED25519 key) \<noteq> []
                       then '' ('' @ accountIDNote xp (AccountID PUBLIC_KEY_TYPE_ED25519 key) @ '')''
                       else [])
                    @ [CHR 0x0A]"
    using assms(2) by (rule shim_encode)
next
  assume "map_of (kvs xs) (take (length name - 20) name @ ''sourceAccount'') = None"
  with assms show "xdrScan_Marshal ext d name (ArrayOpaque k) xs = (ArrayOpaque k, xs)"
    by (rule shim_absent)
qed

theorem source_account_shim_witness:
  "length (replicate 32 (0 :: byte)) = 32
   \<and> HasSuffix ''tx.sourceAccountEd25519'' ''tx.sourceAccountEd25519''
   \<and> acct_Scan demo_extern (AccountID PUBLIC_KEY_TYPE_ED25519 (replicate 32 0)) '' G0101010101010101010101010101010101010101010101010101010101010101''
       = Inr (AccountID PUBLIC_KEY_TYPE_ED25519 (replicate 32 1))
   \<and> fst (xdrScan_Marshal demo_extern 0 ''tx.sourceAccountEd25519'' (ArrayOpaque (replicate 32 0))
            \<lparr>kvs = [(''tx.sourceAccount'', \<lparr>line = 1, val = '' G0101010101010101010101010101010101010101010101010101010101010101''\<rparr>)], err = [], helps = []\<rparr>)
       = ArrayOpaque (replicate 32 1)
   \<and> txStringCtx_Marshal demo_extern no_notes 0 ''tx.sourceAccountEd25519'' (ArrayOpaque (replicate 32 1))
       = ''tx.sourceAccount: G'' @ hex_string (replicate 32 1) @ [CHR 0x0A]
   \<and> xdrScan_Marshal demo_extern 0 ''tx.sourceAccountEd25519'' (ArrayOpaque (replicate 32 0))
        \<lparr>kvs = [(''tx.sourceAccountEd25519'', \<lparr>line = 1, val = '' 0101010101010101010101010101010101010101010101010101010101010101''\<rparr>)], err = [], helps = []\<rparr>
       = (ArrayOpaque (replicate 32 0),
          \<lparr>kvs = [(''tx.sourceAccountEd25519'', \<lparr>line = 1, val = '' 0101010101010101010101010101010101010101010101010101010101010101''\<rparr>)], err = [], helps = []\<rparr>)"
proof -
  let ?n = "''tx.sourceAccountEd25519''"
  let ?short = "\<lparr>kvs = [(''tx.sourceAccount'', \<lparr>line = 1, val = '' G0101010101010101010101010101010101010101010101010101010101010101''\<rparr>)], err = [], helps = []\<rparr>"
  let ?legacy = "\<lparr>kvs = [(''tx.sourceAccountEd25519'', \<lparr>line = 1, val = '' 0101010101010101010101010101010101010101010101010101010101010101''\<rparr>)], err = [], helps = []\<rparr>"
  have l: "length (replicate 32 (0 :: byte)) = 32" by simp
  have s: "HasSuffix ?n ''tx.sourceAccountEd25519''" by (simp add: HasSuffix_def)
  have h1: "map_of (kvs ?short) (take (length ?n - 20) ?n @ ''sourceAccount'')
      = Some \<lparr>line = 1, val = '' G0101010101010101010101010101010101010101010101010101010101010101''\<rparr>" by simp
  have h2: "acct_Scan demo_extern (AccountID PUBLIC_KEY_TYPE_ED25519 (replicate 32 0)) '' G0101010101010101010101010101010101010101010101010101010101010101''
       = Inr (AccountID PUBLIC_KEY_TYPE_ED25519 (replicate 32 1))" by (rule demo_scan_account)
  have h3: "length (replicate 32 (1 :: byte)) = 32" by simp
  have h4: "map_of (kvs ?legacy) (take (length ?n - 20) ?n @ ''sourceAccount'') = None" by simp
  from source_account_shim [OF l s, of ?short 1 "'' G0101010101010101010101010101010101010101010101010101010101010101''" demo_extern "replicate 32 1" 0 no_notes]
    h1 h2 h3
  have a: "fst (xdrScan_Marshal demo_extern 0 ?n (ArrayOpaque (replicate 32 0)) ?short)
       = ArrayOpaque (replicate 32 1)"
    and b: "txStringCtx_Marshal demo_extern no_notes 0 ?n (ArrayOpaque (replicate 32 1))
                  = take (length ?n - 20) ?n @ ''sourceAccount'' @ '': ''
                    @ acct_String demo_extern (AccountID PUBLIC_KEY_TYPE_ED25519 (replicate 32 1))
                    @ (if accountIDNote no_notes (AccountID PUBLIC_KEY_TYPE_ED25519 (replicate 32 1)) \<noteq> []
                       then '' ('' @ accountIDNote no_notes (AccountID PUBLIC_KEY_TYPE_ED25519 (replicate 32 1)) @ '')''
                       else [])
                    @ [CHR 0x0A]"
    by blast+
  from source_account_shim [OF l s, of ?legacy _ _ demo_extern _ 0] h4
  have c: "xdrScan_Marshal demo_extern 0 ?n (ArrayOpaque (replicate 32 0)) ?legacy
       = (ArrayOpaque (replicate 32 0), ?legacy)"
    by blast
  have e: "take (length ?n - 20) ?n @ ''sourceAccount'' @ '': ''
                    @ acct_String demo_extern (AccountID PUBLIC_KEY_TYPE_ED25519 (replicate 32 1))
                    @ (if accountIDNote no_notes (AccountID PUBLIC_KEY_TYPE_ED25519 (replicate 32 1)) \<noteq> []
                       then '' ('' @ accountIDNote no_notes (AccountID PUBLIC_KEY_TYPE_ED25519 (replicate 32 1)) @ '')''
                       else [])
                    @ [CHR 0x0A]
       = ''tx.sourceAccount: G'' @ hex_string (replicate 32 1) @ [CHR 0x0A]"
    by (simp add: demo_extern_def no_notes_def)
  from b have b': "txStringCtx_Marshal demo_extern no_notes 0 ?n (ArrayOpaque (replicate 32 1))
       = ''tx.sourceAccount: G'' @ hex_string (replicate 32 1) @ [CHR 0x0A]"
    by (simp only: e)
  show ?thesis using l s h2 a b' c by (intro conjI) assumption+
qed

section \<open>A sequence at the root\<close>

lemma encode_root_sequence:
  "XdrToTxrep demo_extern no_notes [] (Vec 10 (VecOpaque 8 []) [VecOpaque 8 [0xde, 0xad]])
     = ''len: 1'' @ [CHR 0x0A] @ ''[0]: dead'' @ [CHR 0x0A]"
  by (simp add: XdrToTxrep_def ps_len_def elemName_def dec.simps digit_char_def PrintVecOpaque_def
      hex_string_def hex_byte_def)

lemma readKvs_root_sequence:
  "readKvs (''len: 1'' @ [CHR 0x0A] @ ''[0]: dead'' @ [CHR 0x0A]) \<lparr>kvs = [], err = [], helps = []\<rparr>
     = \<lparr>kvs = [(''len'', \<lparr>line = 1, val = '' 1''\<rparr>), (''[0]'', \<lparr>line = 2, val = '' dead''\<rparr>)],
        err = [], helps = []\<rparr>"
  by (simp add: readKvs_def readKvs_loop.simps ReadTextLine_def SplitN2_def)

lemma encode_named_sequence:
  "XdrToTxrep demo_extern no_notes ''ops'' (Vec 10 (VecOpaque 8 []) [VecOpaque 8 [0xde, 0xad]])
     = ''ops.len: 1'' @ [CHR 0x0A] @ ''ops[0]: dead'' @ [CHR 0x0A]"
  by (simp add: XdrToTxrep_def ps_len_def elemName_def dec.simps digit_char_def PrintVecOpaque_def
      hex_string_def hex_byte_def)

lemma decode_named_sequence:
  "fst (XdrFromTxrep demo_extern (''ops.len: 1'' @ [CHR 0x0A] @ ''ops[0]: dead'' @ [CHR 0x0A]) ''ops''
          (Vec 10 (VecOpaque 8 []) []))
     = Vec 10 (VecOpaque 8 []) [VecOpaque 8 [0xde, 0xad]]"
  by (simp add: XdrFromTxrep_def readKvs_def readKvs_loop.simps ReadTextLine_def SplitN2_def
      Marshal_XdrSize_def kvs_get_def kvs_ok_def kvs_delete_def ps_len_def Sscan_uint32_def
      isSpace_def isDigit_def undec_def hex_val_def elemName_def dec.simps digit_char_def
      Marshal_VecOpaque_def Scan_VecOpaque_def first_word_def ends_with_question_def Let_def)

text \<open>
  C1. Decoding the text that encoding a tree produced is to yield the tree again. For
  a sequence encoded and decoded at the root, under the empty name, it does not: the
  encoder writes the count under the key \<open>len\<close> (it leaves the dot out after an empty
  name), the decoder looks the count up under \<open>.len\<close>, finds nothing and sets the size
  to zero. The sequence of one element comes back empty.
\<close>

theorem root_sequence_not_restored:
  "XdrToTxrep demo_extern no_notes [] (Vec 10 (VecOpaque 8 []) [VecOpaque 8 [0xde, 0xad]])
     = ''len: 1'' @ [CHR 0x0A] @ ''[0]: dead'' @ [CHR 0x0A]
   \<and> fst (XdrFromTxrep demo_extern (''len: 1'' @ [CHR 0x0A] @ ''[0]: dead'' @ [CHR 0x0A]) []
            (Vec 10 (VecOpaque 8 []) [VecOpaque 8 [0xde, 0xad]]))
       = Vec 10 (VecOpaque 8 []) []
   \<and> fst (XdrFromTxrep demo_extern (''len: 1'' @ [CHR 0x0A] @ ''[0]: dead'' @ [CHR 0x0A]) []
            (Vec 10 (VecOpaque 8 []) []))
       = Vec 10 (VecOpaque 8 []) []
   \<and> err (snd (XdrFromTxrep demo_extern (''len: 1'' @ [CHR 0x0A] @ ''[0]: dead'' @ [CHR 0x0A]) []
            (Vec 10 (VecOpaque 8 []) [VecOpaque 8 [0xde, 0xad]]))) = []"
proof -
  let ?T = "\<lparr>kvs = [(''len'', \<lparr>line = 1, val = '' 1''\<rparr>), (''[0]'', \<lparr>line = 2, val = '' dead''\<rparr>)],
        err = [], helps = []\<rparr>"
  have n: "map_of (kvs ?T) ([] @ ''.len'') = None" by simp
  have sz: "Marshal_XdrSize [] \<lparr>Size = m, Bound = 10\<rparr> ?T
      = (\<lparr>Size = 0, Bound = 10\<rparr>, kvs_delete [] ?T)" for m
    by (rule Marshal_XdrSize_absent [OF n])
  have v: "xdrScan_Marshal demo_extern 0 [] (Vec 10 (VecOpaque 8 []) es) ?T
      = (Vec 10 (VecOpaque 8 []) [], kvs_delete [] (kvs_delete [] ?T))" for es :: "nat node list"
    by (simp only: xdrScan_Marshal.simps(7) sz prod.case XdrSize.select_convs XdrMarshalN_zero) simp
  have a: "fst (XdrFromTxrep demo_extern (''len: 1'' @ [CHR 0x0A] @ ''[0]: dead'' @ [CHR 0x0A]) []
                  (Vec 10 (VecOpaque 8 []) es)) = Vec 10 (VecOpaque 8 []) []"
    for es :: "nat node list"
    by (simp only: XdrFromTxrep_def readKvs_root_sequence v fst_conv)
  have b: "err (snd (XdrFromTxrep demo_extern (''len: 1'' @ [CHR 0x0A] @ ''[0]: dead'' @ [CHR 0x0A]) []
                  (Vec 10 (VecOpaque 8 []) es))) = []"
    for es :: "nat node list"
    by (simp only: XdrFromTxrep_def readKvs_root_sequence v snd_conv) (simp add: kvs_delete_def)
  show ?thesis using encode_root_sequence a b by (intro conjI) assumption+
qed


end
